theory Spec2Isabelle
  imports Complex_Main "HOL-Library.Word" "HOL-Library.Signed_Division"
    "HOL-Library.Char_ord" "HOL-Library.List_Lexorder"
begin

section \<open>Conventions\<close>

text \<open>
  The program is JavaScript. Its numbers are IEEE doubles; here a finite double is a
  \<open>real\<close>, so rounding of the arithmetic is not modelled. The theorems below compare
  values with constants and with each other; they do not depend on how a product or a
  quotient is rounded. A \<open>BigInt\<close> is an \<open>int\<close>; BigInt division truncates towards zero
  (\<open>sdiv\<close>). The decimal strings that carry unsigned 64-bit account fields
  (\<open>readU64LE(...).toString()\<close>) are \<open>64 word\<close> values, read back with \<open>uint\<close> where
  the code applies \<open>BigInt(...)\<close> or \<open>Number(...)\<close>.
\<close>

type_synonym u64 = "64 word"

section \<open>Bonding-curve progress (src/scanner/pumpCurve.js)\<close>

text \<open>
  \<open>computeProgressPct({ realToken, supply })\<close>, after \<open>BigInt(realToken)\<close> and
  \<open>BigInt(supply)\<close>.
\<close>

definition computeProgressPct :: "int \<Rightarrow> int \<Rightarrow> real" where
  "computeProgressPct rt supply =
     (if supply = 0 then 0
      else
        let sold = (if supply > rt then supply - rt else 0);
            pct = real_of_int ((sold * 10000) sdiv supply) / 100
        in max 0 (min 100 pct))"

fun curveStage :: "real \<Rightarrow> string" where
  "curveStage progressPct =
     (if progressPct \<ge> 100 then ''GRADUATED''
      else if progressPct \<ge> 80 then ''80-99''
      else if progressPct \<ge> 50 then ''50-80''
      else if progressPct \<ge> 20 then ''20-50''
      else ''0-20'')"

section \<open>Configuration (config.example.js)\<close>

record scannerConfig =
  minCurveProgress :: real
  maxCurveProgress :: real
  minHolders :: real
  minVolume5mSol :: real
  minInitialBuySol :: real

datatype tier = COLD | WARM | HOT | VERY_HOT | EXTREME

record tierConfig =
  tierMinScore :: real
  sizeMultiplier :: real

record tiersConfig =
  tiersWARM :: tierConfig
  tiersHOT :: tierConfig
  tiersVERY_HOT :: tierConfig
  tiersEXTREME :: tierConfig

record momentumConfig =
  weightVolume :: real
  weightHolders :: real
  weightCurve :: real
  minScore :: real
  tiers :: tiersConfig

definition defaultScanner :: scannerConfig where
  "defaultScanner =
     \<lparr> minCurveProgress = 0, maxCurveProgress = 99, minHolders = 15,
       minVolume5mSol = 1/2, minInitialBuySol = 1/10 \<rparr>"

definition defaultTiers :: tiersConfig where
  "defaultTiers =
     \<lparr> tiersWARM = \<lparr> tierMinScore = 20, sizeMultiplier = 1/4 \<rparr>,
       tiersHOT = \<lparr> tierMinScore = 40, sizeMultiplier = 1/2 \<rparr>,
       tiersVERY_HOT = \<lparr> tierMinScore = 60, sizeMultiplier = 3/4 \<rparr>,
       tiersEXTREME = \<lparr> tierMinScore = 80, sizeMultiplier = 1 \<rparr> \<rparr>"

definition defaultMomentum :: momentumConfig where
  "defaultMomentum =
     \<lparr> weightVolume = 4/10, weightHolders = 2/10, weightCurve = 4/10,
       minScore = 40, tiers = defaultTiers \<rparr>"

section \<open>Validation pipeline (ValidationQueue)\<close>

record curveData =
  virtualToken :: u64
  virtualSol :: u64
  realToken :: u64
  realSol :: u64

text \<open>
  What \<open>_fetchMintInfo\<close> returns: \<open>null\<close> when the call throws, \<open>{ isNew: true }\<close>
  when the account has no usable 82-byte data, otherwise the parsed supply with
  \<open>isNew: false\<close>.
\<close>

datatype mintInfo = MintFetchFailed | MintNew | MintKnown u64

datatype rejectionReason =
    CURVE_NOT_FOUND | CURVE_GRADUATED | CURVE_BELOW_MIN | NOT_ON_CURVE
  | TOKEN_TOO_MATURE | LOW_LIQUIDITY | TOO_MATURE | WEAK_EARLY_MOMENTUM
  | INSUFFICIENT_HOLDERS | INSUFFICIENT_VOLUME | SMALL_INITIAL_BUY
  | MOMENTUM_BELOW_THRESHOLD

record validation =
  estimatedHolders :: real
  estimatedVolumeSol :: real
  liquiditySol :: real

record enterInfo =
  momentumScore :: int
  enterTier :: tier
  positionSizePct :: real
  progress :: real
  isNew :: bool

datatype result = PASS rejectionReason | ENTER enterInfo

text \<open>
  The two \<open>Math.random()\<close> draws of \<open>_estimateVolume\<close> and \<open>_getInitialBuy\<close> are
  inputs of the model.
\<close>

record draws =
  volumeDraw :: real
  initialBuyDraw :: real

definition estimateVolume :: "draws \<Rightarrow> real" where
  "estimateVolume d = 1/2 + volumeDraw d * 2"

definition getInitialBuy :: "draws \<Rightarrow> real" where
  "getInitialBuy d = 1/10 + initialBuyDraw d * (1/2)"

text \<open>\<open>Math.round\<close>: the nearest integer, a tie going up.\<close>

definition js_round :: "real \<Rightarrow> int" where
  "js_round x = \<lfloor>x + 1/2\<rfloor>"

text \<open>
  \<open>mintInfo?.supply || curveData.realToken\<close>: the supply string of a parsed mint is
  never empty, so it is taken whenever the mint was parsed.
\<close>

definition supplyOf :: "mintInfo \<Rightarrow> curveData \<Rightarrow> int" where
  "supplyOf mi cd = (case mi of MintKnown s \<Rightarrow> uint s | _ \<Rightarrow> uint (realToken cd))"

definition deepValidate ::
  "scannerConfig \<Rightarrow> draws \<Rightarrow> mintInfo \<Rightarrow> curveData \<Rightarrow> rejectionReason + validation" where
  "deepValidate scanner d mi cd =
     (let supply = supplyOf mi cd;
          soldTokens = supply - uint (realToken cd);
          holders = real_of_int soldTokens / 1000000
      in if holders < minHolders scanner then Inl INSUFFICIENT_HOLDERS
         else
           let volume = estimateVolume d
           in if volume < minVolume5mSol scanner then Inl INSUFFICIENT_VOLUME
              else
                let liq = real_of_int (uint (realSol cd)) / 1000000000
                in if liq < 1/2 then Inl LOW_LIQUIDITY
                   else
                     let initialBuy = getInitialBuy d
                     in if initialBuy \<noteq> 0 \<and> initialBuy < minInitialBuySol scanner
                        then Inl SMALL_INITIAL_BUY
                        else Inr \<lparr> estimatedHolders = holders,
                                   estimatedVolumeSol = volume,
                                   liquiditySol = liq \<rparr>)"

definition calculateMomentumScore :: "momentumConfig \<Rightarrow> validation \<Rightarrow> real \<Rightarrow> int" where
  "calculateMomentumScore momentum v prog =
     (let volumeScore = min ((estimatedVolumeSol v / 2) * 100) 100;
          holderScore = min ((estimatedHolders v / 50) * 100) 100;
          curveScore = prog * (8/10);
          score = volumeScore * weightVolume momentum
                + holderScore * weightHolders momentum
                + curveScore * weightCurve momentum
      in js_round score)"

definition getTier :: "momentumConfig \<Rightarrow> real \<Rightarrow> tier" where
  "getTier momentum score =
     (if score \<ge> tierMinScore (tiersEXTREME (tiers momentum)) then EXTREME
      else if score \<ge> tierMinScore (tiersVERY_HOT (tiers momentum)) then VERY_HOT
      else if score \<ge> tierMinScore (tiersHOT (tiers momentum)) then HOT
      else if score \<ge> tierMinScore (tiersWARM (tiers momentum)) then WARM
      else COLD)"

text \<open>
  \<open>tiers[tier]?.sizeMultiplier || 0.25\<close>: the table has no entry for \<open>COLD\<close>, and a
  zero multiplier is falsy; both give 0.25.
\<close>

fun tierEntry :: "tiersConfig \<Rightarrow> tier \<Rightarrow> tierConfig option" where
  "tierEntry ts WARM = Some (tiersWARM ts)"
| "tierEntry ts HOT = Some (tiersHOT ts)"
| "tierEntry ts VERY_HOT = Some (tiersVERY_HOT ts)"
| "tierEntry ts EXTREME = Some (tiersEXTREME ts)"
| "tierEntry ts COLD = None"

definition getPositionSizeForTier :: "momentumConfig \<Rightarrow> tier \<Rightarrow> real" where
  "getPositionSizeForTier momentum t =
     (case tierEntry (tiers momentum) t of
        None \<Rightarrow> 1/4
      | Some c \<Rightarrow> if sizeMultiplier c = 0 then 1/4 else sizeMultiplier c)"

record basicOk =
  basicLiquiditySol :: real
  basicProgress :: real

definition basicValidate :: "curveData \<Rightarrow> real \<Rightarrow> rejectionReason + basicOk" where
  "basicValidate cd prog =
     (let liq = real_of_int (uint (realSol cd)) / 1000000000
      in if liq < 15/100 then Inl LOW_LIQUIDITY
         else if prog > 75 then Inl TOO_MATURE
         else Inr \<lparr> basicLiquiditySol = liq, basicProgress = prog \<rparr>)"

definition calculateEarlyScore :: "basicOk \<Rightarrow> real \<Rightarrow> int" where
  "calculateEarlyScore v prog =
     (let score = 60;
          score = (if prog \<ge> 2 \<and> prog \<le> 70 then score + 25
                   else if prog \<ge> 0 \<and> prog \<le> 75 then score + 15
                   else score);
          score = (if basicLiquiditySol v \<ge> 1/2 then score + 20
                   else if basicLiquiditySol v \<ge> 3/10 then score + 15
                   else if basicLiquiditySol v \<ge> 15/100 then score + 10
                   else score)
      in min score 100)"

text \<open>
  \<open>_runValidationPipeline\<close>. The first argument of the model is what \<open>_fetchCurveData\<close>
  returned (\<open>None\<close> for \<open>null\<close>), the second what \<open>_fetchMintInfo\<close> returned.
\<close>

definition runValidationPipeline ::
  "scannerConfig \<Rightarrow> momentumConfig \<Rightarrow> draws \<Rightarrow> curveData option \<Rightarrow> mintInfo \<Rightarrow> result" where
  "runValidationPipeline scanner momentum d curve mi =
     (case curve of
        None \<Rightarrow> PASS CURVE_NOT_FOUND
      | Some cd \<Rightarrow>
          let new = (mi = MintNew);
              supply = supplyOf mi cd;
              prog = computeProgressPct (uint (realToken cd)) supply
          in if prog \<ge> maxCurveProgress scanner then PASS CURVE_GRADUATED
             else if prog < minCurveProgress scanner then PASS CURVE_BELOW_MIN
             else if prog \<ge> 100 then PASS NOT_ON_CURVE
             else if new then
               (if prog > 70 then PASS TOKEN_TOO_MATURE
                else case basicValidate cd prog of
                  Inl r \<Rightarrow> PASS r
                | Inr bv \<Rightarrow>
                    let earlyScore = calculateEarlyScore bv prog
                    in if real_of_int earlyScore < minScore momentum
                       then PASS WEAK_EARLY_MOMENTUM
                       else
                         let t = (if earlyScore \<ge> 80 then EXTREME
                                  else if earlyScore \<ge> 70 then VERY_HOT
                                  else if real_of_int earlyScore \<ge> minScore momentum then HOT
                                  else WARM)
                         in ENTER \<lparr> momentumScore = earlyScore, enterTier = t,
                                    positionSizePct = getPositionSizeForTier momentum t,
                                    progress = prog, isNew = True \<rparr>)
             else
               (case deepValidate scanner d mi cd of
                  Inl r \<Rightarrow> PASS r
                | Inr v \<Rightarrow>
                    let score = calculateMomentumScore momentum v prog;
                        t = getTier momentum (real_of_int score)
                    in if real_of_int score < minScore momentum
                       then PASS MOMENTUM_BELOW_THRESHOLD
                       else ENTER \<lparr> momentumScore = score, enterTier = t,
                                    positionSizePct = getPositionSizeForTier momentum t,
                                    progress = prog, isNew = False \<rparr>))"

section \<open>JavaScript numbers that may be infinite or NaN\<close>

text \<open>
  The position manager divides by values it does not check. Its numbers are therefore
  modelled with the two infinities and NaN next to the finite values, with the IEEE rules
  for them written out. There is no negative zero and no overflow to infinity in the model.
\<close>

datatype jsnum = Fin real | PInf | NInf | NaN

fun isNeg :: "jsnum \<Rightarrow> bool" where
  "isNeg (Fin a) = (a < 0)"
| "isNeg NInf = True"
| "isNeg _ = False"

fun jneg :: "jsnum \<Rightarrow> jsnum" where
  "jneg (Fin a) = Fin (- a)"
| "jneg PInf = NInf"
| "jneg NInf = PInf"
| "jneg NaN = NaN"

fun jadd :: "jsnum \<Rightarrow> jsnum \<Rightarrow> jsnum" where
  "jadd (Fin a) (Fin b) = Fin (a + b)"
| "jadd NaN _ = NaN"
| "jadd _ NaN = NaN"
| "jadd PInf NInf = NaN"
| "jadd NInf PInf = NaN"
| "jadd PInf _ = PInf"
| "jadd _ PInf = PInf"
| "jadd NInf _ = NInf"
| "jadd _ NInf = NInf"

definition jsub :: "jsnum \<Rightarrow> jsnum \<Rightarrow> jsnum" where
  "jsub x y = jadd x (jneg y)"

fun jmul :: "jsnum \<Rightarrow> jsnum \<Rightarrow> jsnum" where
  "jmul (Fin a) (Fin b) = Fin (a * b)"
| "jmul NaN _ = NaN"
| "jmul _ NaN = NaN"
| "jmul x y =
     (if x = Fin 0 \<or> y = Fin 0 then NaN
      else if isNeg x = isNeg y then PInf else NInf)"

fun jdiv :: "jsnum \<Rightarrow> jsnum \<Rightarrow> jsnum" where
  "jdiv NaN _ = NaN"
| "jdiv _ NaN = NaN"
| "jdiv (Fin a) (Fin b) =
     (if b \<noteq> 0 then Fin (a / b)
      else if a = 0 then NaN
      else if a > 0 then PInf else NInf)"
| "jdiv (Fin a) _ = Fin 0"
| "jdiv x (Fin b) = (if isNeg x = (b < 0) then PInf else NInf)"
| "jdiv _ _ = NaN"

fun jle :: "jsnum \<Rightarrow> jsnum \<Rightarrow> bool" where
  "jle NaN _ = False"
| "jle _ NaN = False"
| "jle (Fin a) (Fin b) = (a \<le> b)"
| "jle NInf _ = True"
| "jle _ PInf = True"
| "jle _ _ = False"

fun jlt :: "jsnum \<Rightarrow> jsnum \<Rightarrow> bool" where
  "jlt NaN _ = False"
| "jlt _ NaN = False"
| "jlt (Fin a) (Fin b) = (a < b)"
| "jlt PInf _ = False"
| "jlt _ NInf = False"
| "jlt _ _ = True"

definition jge :: "jsnum \<Rightarrow> jsnum \<Rightarrow> bool" where
  "jge x y = jle y x"

definition jgt :: "jsnum \<Rightarrow> jsnum \<Rightarrow> bool" where
  "jgt x y = jlt y x"

fun jfloor :: "jsnum \<Rightarrow> jsnum" where
  "jfloor (Fin a) = Fin (of_int \<lfloor>a\<rfloor>)"
| "jfloor x = x"

fun jabs :: "jsnum \<Rightarrow> jsnum" where
  "jabs (Fin a) = Fin \<bar>a\<bar>"
| "jabs NaN = NaN"
| "jabs _ = PInf"

text \<open>A number is falsy when it is zero or NaN.\<close>

definition truthy :: "jsnum \<Rightarrow> bool" where
  "truthy x = (x \<noteq> Fin 0 \<and> x \<noteq> NaN)"

section \<open>Position manager (PositionManager)\<close>

datatype posState = IN_POSITION | TIER_1_EXITED | CLOSED | STOPPED

datatype exitReason = TIER_1_PROFIT | TIER_2_PROFIT | STOP_LOSS | TIME_DECAY | FEE_SPIKE

text \<open>
  The position object. Of \<open>signal\<close> only \<open>signal.curveData\<close> is read; \<open>currentPrice\<close>,
  \<open>pnlPct\<close>, \<open>exitReason\<close> and \<open>exitTime\<close> are absent until they are first assigned.
\<close>

record position =
  mint :: string
  entryPrice :: jsnum
  entryTime :: int
  tokens :: jsnum
  solInvested :: jsnum
  signalCurve :: "curveData option"
  state :: posState
  entrySlot :: int
  lastCheckTime :: int
  tier1Exited :: bool
  tier2Exited :: bool
  remainingTokens :: jsnum
  realizedPnL :: jsnum
  currentPrice :: "jsnum option"
  pnlPct :: "jsnum option"
  exitReason :: "exitReason option"
  exitTime :: "int option"

datatype trade =
    PartialTrade string exitReason jsnum jsnum jsnum int
  | FullTrade string jsnum jsnum jsnum jsnum exitReason int int

record dailyStats =
  date :: string
  trades :: "trade list"
  totalPnL :: jsnum
  wins :: nat
  losses :: nat
  aborted :: nat

text \<open>The events the manager emits, with the mint of the position they carry.\<close>

datatype event =
    Opened string
  | PartialExit string jsnum exitReason
  | ClosedEv string exitReason
  | CircuitBreaker string

text \<open>
  The manager: \<open>positions\<close> is the \<open>Map\<close> from mint to position, as the list of its
  entries in insertion order; \<open>emitted\<close> collects the events in the order of the
  \<open>emit\<close> calls.
\<close>

record manager =
  positions :: "(string \<times> position) list"
  stats :: dailyStats
  emitted :: "event list"

fun mapSet :: "'k \<Rightarrow> 'v \<Rightarrow> ('k \<times> 'v) list \<Rightarrow> ('k \<times> 'v) list" where
  "mapSet k v [] = [(k, v)]"
| "mapSet k v ((k', v') # es) = (if k' = k then (k, v) # es else (k', v') # mapSet k v es)"

definition mapDelete :: "'k \<Rightarrow> ('k \<times> 'v) list \<Rightarrow> ('k \<times> 'v) list" where
  "mapDelete k es = filter (\<lambda>e. fst e \<noteq> k) es"

record tradingConfig =
  maxPositions :: nat
  dailyLossLimitPct :: real

definition defaultTrading :: tradingConfig where
  "defaultTrading = \<lparr> maxPositions = 3, dailyLossLimitPct = 15 \<rparr>"

record exitConfig =
  tier1Enabled :: bool
  tier1MinPct :: real
  tier1MaxPct :: real
  tier1ExitPct :: real
  tier2Enabled :: bool
  tier2MinPct :: real
  stopLossEnabled :: bool
  stopLossPct :: real
  timeDecayEnabled :: bool
  timeDecayMaxSlots :: int
  timeDecayRequireProfit :: bool
  feeSpikeExit :: bool

text \<open>
  The \<open>exit\<close> block of config.example.js. It has no \<open>feeSpikeExit\<close> entry (that key is
  under \<open>feeMonitoring\<close>), so \<open>exit.feeSpikeExit\<close> is \<open>undefined\<close>, which is falsy.
\<close>

definition defaultExit :: exitConfig where
  "defaultExit =
     \<lparr> tier1Enabled = True, tier1MinPct = 50, tier1MaxPct = 100, tier1ExitPct = 50,
       tier2Enabled = True, tier2MinPct = 100,
       stopLossEnabled = True, stopLossPct = -15,
       timeDecayEnabled = True, timeDecayMaxSlots = 300, timeDecayRequireProfit = True,
       feeSpikeExit = False \<rparr>"

text \<open>
  What one call reads from outside: the clock, the slot that \<open>_getCurrentSlot\<close> returns
  (0 when the call fails) and the \<open>Math.random()\<close> draw of \<open>_checkParabolicMove\<close>.
\<close>

record world =
  now :: int
  currentSlot :: int
  parabolicDraw :: real

definition isDailyLossLimitHit :: "dailyStats \<Rightarrow> real \<Rightarrow> bool" where
  "isDailyLossLimitHit ds limitPct =
     (if jge (totalPnL ds) (Fin 0) then False
      else
        let lossPct = jmul (jdiv (jabs (totalPnL ds)) (Fin 100)) (Fin 100)
        in jge lossPct (Fin limitPct))"

record openArgs =
  argMint :: string
  argEntryPrice :: jsnum
  argTokens :: jsnum
  argSolInvested :: jsnum
  argSignalCurve :: "curveData option"

definition openPosition ::
  "tradingConfig \<Rightarrow> world \<Rightarrow> openArgs \<Rightarrow> manager \<Rightarrow> position option \<times> manager" where
  "openPosition trading w a m =
     (if length (positions m) \<ge> maxPositions trading then (None, m)
      else if isDailyLossLimitHit (stats m) (dailyLossLimitPct trading)
      then (None, m\<lparr> emitted := emitted m @ [CircuitBreaker ''DAILY_LOSS_LIMIT''] \<rparr>)
      else
        let p = \<lparr> mint = argMint a, entryPrice = argEntryPrice a, entryTime = now w,
                  tokens = argTokens a, solInvested = argSolInvested a,
                  signalCurve = argSignalCurve a, state = IN_POSITION,
                  entrySlot = currentSlot w, lastCheckTime = now w,
                  tier1Exited = False, tier2Exited = False,
                  remainingTokens = argTokens a, realizedPnL = Fin 0,
                  currentPrice = None, pnlPct = None, exitReason = None, exitTime = None \<rparr>
        in (Some p, m\<lparr> positions := mapSet (argMint a) p (positions m),
                        emitted := emitted m @ [Opened (argMint a)] \<rparr>))"

text \<open>
  The price read from the curve data stored with the signal: absent when the signal has
  no curve data or when \<open>virtualToken\<close> is zero.
\<close>

definition priceFromSignal :: "position \<Rightarrow> jsnum option" where
  "priceFromSignal p =
     (case signalCurve p of
        None \<Rightarrow> None
      | Some cd \<Rightarrow>
          if uint (virtualToken cd) > 0
          then Some (jdiv (Fin (real_of_int (uint (virtualSol cd))))
                          (Fin (real_of_int (uint (virtualToken cd)))))
          else None)"

definition computePnlPct :: "jsnum \<Rightarrow> jsnum \<Rightarrow> jsnum" where
  "computePnlPct cp ep = jmul (jdiv (jsub cp ep) ep) (Fin 100)"

definition recordTrade :: "trade \<Rightarrow> jsnum \<Rightarrow> dailyStats \<Rightarrow> dailyStats" where
  "recordTrade t tradePnlPct ds =
     (let ds1 = ds\<lparr> trades := trades ds @ [t] \<rparr>
      in if jlt tradePnlPct (Fin 0) then ds1\<lparr> aborted := aborted ds1 + 1 \<rparr> else ds1)"

text \<open>
  \<open>_executePartialExit\<close> and \<open>_executeFullExit\<close> work on the position object and on the
  manager; the model returns both. They are only called after \<open>pnlPct\<close> was assigned, and
  take its value as \<open>pnl\<close>.
\<close>

definition executePartialExit ::
  "world \<Rightarrow> jsnum \<Rightarrow> exitReason \<Rightarrow> jsnum \<Rightarrow> position \<Rightarrow> manager \<Rightarrow> position \<times> manager" where
  "executePartialExit w exitPct reason pnl p m =
     (let tokensToExit = jfloor (jmul (remainingTokens p) exitPct)
      in if jle tokensToExit (Fin 0) then (p, m)
         else
           let exitValue = jmul (jmul (solInvested p) exitPct)
                                (jadd (Fin 1) (jdiv pnl (Fin 100)));
               p1 = p\<lparr> remainingTokens := jsub (remainingTokens p) tokensToExit,
                        realizedPnL := jadd (realizedPnL p)
                          (jmul (jmul exitValue (jdiv pnl (Fin 100))) exitPct) \<rparr>;
               t = PartialTrade (mint p) reason exitPct tokensToExit pnl (now w)
           in (p1, m\<lparr> stats := recordTrade t pnl (stats m),
                       emitted := emitted m @ [PartialExit (mint p) exitPct reason] \<rparr>))"

definition executeFullExit ::
  "world \<Rightarrow> exitReason \<Rightarrow> jsnum \<Rightarrow> jsnum \<Rightarrow> position \<Rightarrow> manager \<Rightarrow> position \<times> manager" where
  "executeFullExit w reason cp pnl p m =
     (let isWin = jgt pnl (Fin 0);
          t = FullTrade (mint p) (entryPrice p) cp (solInvested p) pnl reason
                (now w - entryTime p) (now w);
          ds = stats m;
          ds1 = ds\<lparr> trades := trades ds @ [t] \<rparr>;
          ds2 = (if isWin then ds1\<lparr> wins := wins ds1 + 1 \<rparr>
                 else ds1\<lparr> losses := losses ds1 + 1 \<rparr>);
          tradePnL = jmul (solInvested p) (jdiv pnl (Fin 100));
          ds3 = ds2\<lparr> totalPnL := jadd (totalPnL ds2) tradePnL \<rparr>;
          p1 = p\<lparr> state := (if reason = STOP_LOSS then STOPPED else CLOSED),
                   exitReason := Some reason, exitTime := Some (now w) \<rparr>
      in (p1, m\<lparr> positions := mapDelete (mint p) (positions m),
                  stats := ds3,
                  emitted := emitted m @ [ClosedEv (mint p) reason] \<rparr>))"

definition checkParabolicMove :: "world \<Rightarrow> real" where
  "checkParabolicMove w = parabolicDraw w * 30"

definition checkFeeBalanceDumpRisk :: "string \<Rightarrow> string" where
  "checkFeeBalanceDumpRisk m = ''LOW''"

text \<open>What one evaluation of a position did.\<close>

datatype fired = NoPrice | Tier1Fired | FullExitFired exitReason | Held

text \<open>
  \<open>_evaluatePosition(mint, position)\<close>. The position object is the value stored in the
  map under \<open>mint\<close>; its assignments are written back there, unless a full exit has
  removed the entry. The result is what fired, the position object after the call, and
  the manager.
\<close>

definition writeBack :: "string \<Rightarrow> position \<Rightarrow> manager \<Rightarrow> manager" where
  "writeBack k p m =
     (if k \<in> fst ` set (positions m) then m\<lparr> positions := mapSet k p (positions m) \<rparr> else m)"

definition evaluatePosition ::
  "exitConfig \<Rightarrow> world \<Rightarrow> string \<Rightarrow> position \<Rightarrow> manager \<Rightarrow> fired \<times> position \<times> manager" where
  "evaluatePosition exit w k p m =
     (case priceFromSignal p of
        None \<Rightarrow> (NoPrice, p, m)
      | Some cp \<Rightarrow>
          if \<not> truthy cp then (NoPrice, p, m)
          else
            let pnl = computePnlPct cp (entryPrice p);
                p0 = p\<lparr> currentPrice := Some cp, pnlPct := Some pnl, lastCheckTime := now w \<rparr>;
                m0 = writeBack k p0 m
            in if tier1Enabled exit \<and> \<not> tier1Exited p0 \<and> state p0 = IN_POSITION
                  \<and> jge pnl (Fin (tier1MinPct exit)) \<and> jle pnl (Fin (tier1MaxPct exit))
               then
                 (let (p1, m1) = executePartialExit w (Fin (tier1ExitPct exit)) TIER_1_PROFIT pnl p0 m0;
                      p2 = p1\<lparr> tier1Exited := True, state := TIER_1_EXITED \<rparr>
                  in (Tier1Fired, p2, writeBack k p2 m1))
               else if tier2Enabled exit \<and> \<not> tier2Exited p0
                  \<and> jge pnl (Fin (tier2MinPct exit)) \<and> checkParabolicMove w > 20
               then
                 (let (p1, m1) = executeFullExit w TIER_2_PROFIT cp pnl p0 m0
                  in (FullExitFired TIER_2_PROFIT, p1, writeBack k p1 m1))
               else if stopLossEnabled exit \<and> jle pnl (Fin (stopLossPct exit))
               then
                 (let (p1, m1) = executeFullExit w STOP_LOSS cp pnl p0 m0
                  in (FullExitFired STOP_LOSS, p1, writeBack k p1 m1))
               else if timeDecayEnabled exit
                  \<and> currentSlot w - entrySlot p0 > timeDecayMaxSlots exit
                  \<and> (\<not> timeDecayRequireProfit exit \<or> jgt pnl (Fin 0))
               then
                 (let (p1, m1) = executeFullExit w TIME_DECAY cp pnl p0 m0
                  in (FullExitFired TIME_DECAY, p1, writeBack k p1 m1))
               else if checkFeeBalanceDumpRisk k = ''HIGH'' \<and> feeSpikeExit exit
               then
                 (let (p1, m1) = executeFullExit w FEE_SPIKE cp pnl p0 m0
                  in (FullExitFired FEE_SPIKE, p1, writeBack k p1 m1))
               else (Held, p0, m0))"

text \<open>The manager as its constructor leaves it, on the day \<open>today\<close>.\<close>

definition newManager :: "string \<Rightarrow> manager" where
  "newManager today =
     \<lparr> positions = [],
       stats = \<lparr> date = today, trades = [], totalPnL = Fin 0, wins = 0, losses = 0, aborted = 0 \<rparr>,
       emitted = [] \<rparr>"

subsection \<open>Concrete positions used in the examples below\<close>

text \<open>
  A position bought at price 1 whose stored curve data gives the price \<open>vs / 100000\<close>,
  the arguments and the world that open it, and the manager holding it alone.
\<close>

definition exampleWorld :: world where
  "exampleWorld = \<lparr> now = 1000, currentSlot = 10, parabolicDraw = 0 \<rparr>"

definition exampleArgs :: "string \<Rightarrow> nat \<Rightarrow> openArgs" where
  "exampleArgs name vs =
     \<lparr> argMint = name, argEntryPrice = Fin 1, argTokens = Fin 1000, argSolInvested = Fin 1,
       argSignalCurve =
         Some \<lparr> virtualToken = 100000, virtualSol = of_nat vs, realToken = 0, realSol = 0 \<rparr> \<rparr>"

definition examplePosition :: "string \<Rightarrow> nat \<Rightarrow> position" where
  "examplePosition name vs =
     \<lparr> mint = name, entryPrice = Fin 1, entryTime = 1000, tokens = Fin 1000,
       solInvested = Fin 1,
       signalCurve =
         Some \<lparr> virtualToken = 100000, virtualSol = of_nat vs, realToken = 0, realSol = 0 \<rparr>,
       state = IN_POSITION, entrySlot = 10, lastCheckTime = 1000,
       tier1Exited = False, tier2Exited = False,
       remainingTokens = Fin 1000, realizedPnL = Fin 0,
       currentPrice = None, pnlPct = None, exitReason = None, exitTime = None \<rparr>"

definition exampleManager :: "(string \<times> position) list \<Rightarrow> event list \<Rightarrow> manager" where
  "exampleManager ps evs =
     \<lparr> positions = ps,
       stats = \<lparr> date = ''d'', trades = [], totalPnL = Fin 0, wins = 0, losses = 0, aborted = 0 \<rparr>,
       emitted = evs \<rparr>"

definition exampleSingle :: "nat \<Rightarrow> manager" where
  "exampleSingle vs = exampleManager [(''M'', examplePosition ''M'' vs)] [Opened ''M'']"

definition exampleFull :: manager where
  "exampleFull =
     exampleManager
       [(''A'', examplePosition ''A'' 100000), (''B'', examplePosition ''B'' 100000),
        (''C'', examplePosition ''C'' 100000)]
       [Opened ''A'', Opened ''B'', Opened ''C'']"

definition exampleLosing :: manager where
  "exampleLosing =
     \<lparr> positions = [],
       stats = \<lparr> date = ''d'', trades = [], totalPnL = Fin (-20), wins = 0, losses = 1, aborted = 0 \<rparr>,
       emitted = [] \<rparr>"

text \<open>The example position after its tier-1 exit at a profit of 75 per cent.\<close>

definition exampleAfterTier1 :: position where
  "exampleAfterTier1 =
     fst (snd (evaluatePosition defaultExit exampleWorld ''M''
                 (examplePosition ''M'' 175000) (exampleSingle 175000)))"

definition exampleManagerAfterTier1 :: manager where
  "exampleManagerAfterTier1 =
     snd (snd (evaluatePosition defaultExit exampleWorld ''M''
                 (examplePosition ''M'' 175000) (exampleSingle 175000)))"

section \<open>State persistence (StateManager)\<close>

text \<open>
  A plain data object is the map from its property names to their values; the values are
  left abstract. The in-memory \<open>Map\<close>s of the state are maps from keys to values, so the
  insertion order of a \<open>Map\<close> is not part of the model.

  A value of the \<open>positions\<close> or \<open>seenMints\<close> map is either a plain object, or a
  two-element array \<open>[key, object]\<close>: \<open>takeSnapshot\<close> writes each map as the array of
  its entries, and \<open>load\<close> rebuilds the map with \<open>new Map(Object.entries(array))\<close>,
  which keys each entry by its index in the array and keeps the pair as the value. The
  third component of \<open>FromList\<close> holds the named properties that \<open>Object.assign\<close> has
  put on such an array. (An assigned property named by an index or \<open>length\<close> is kept
  there like any other name; no field of a position has such a name.)
\<close>

type_synonym 'v obj = "string \<rightharpoonup> 'v"

datatype 'v pval = Plain "'v obj" | FromList string "'v obj" "'v obj"

record ('v, 'r) smState =
  smPositions :: "string \<rightharpoonup> 'v pval"
  smSeenMints :: "string \<rightharpoonup> 'v pval"
  smCompletedMints :: "string set"
  smRest :: 'r

text \<open>
  A WAL entry as \<open>_walAppend\<close> receives it; \<open>OTHER\<close> is an entry whose \<open>type\<close> is
  none of the four.
\<close>

datatype 'v walEntry =
    MINT_SEEN string "'v obj"
  | POSITION_OPENED string "'v obj"
  | POSITION_UPDATED string "'v obj"
  | POSITION_CLOSED string
  | OTHER

text \<open>\<open>Object.assign(pos, updates)\<close>: the properties of \<open>updates\<close> overwrite those of \<open>pos\<close>.\<close>

fun assign :: "'v pval \<Rightarrow> 'v obj \<Rightarrow> 'v pval" where
  "assign (Plain f) u = Plain (f ++ u)"
| "assign (FromList k f extra) u = FromList k f (extra ++ u)"

fun applyWalEntry :: "'v walEntry \<Rightarrow> ('v, 'r) smState \<Rightarrow> ('v, 'r) smState" where
  "applyWalEntry (MINT_SEEN m d) st = st\<lparr> smSeenMints := (smSeenMints st)(m \<mapsto> Plain d) \<rparr>"
| "applyWalEntry (POSITION_OPENED m p) st = st\<lparr> smPositions := (smPositions st)(m \<mapsto> Plain p) \<rparr>"
| "applyWalEntry (POSITION_UPDATED m u) st =
     (case smPositions st m of
        None \<Rightarrow> st
      | Some pos \<Rightarrow> st\<lparr> smPositions := (smPositions st)(m \<mapsto> assign pos u) \<rparr>)"
| "applyWalEntry (POSITION_CLOSED m) st = st\<lparr> smPositions := (smPositions st)(m := None) \<rparr>"
| "applyWalEntry OTHER st = st"

text \<open>The inner loop of \<open>_replayWal\<close>: the entries of one segment, in order.\<close>

definition replaySegment :: "'v walEntry list \<Rightarrow> ('v, 'r) smState \<Rightarrow> ('v, 'r) smState" where
  "replaySegment entries st = fold applyWalEntry entries st"

text \<open>
  A file of the \<open>wal\<close> directory: its name and its parsed entries, \<open>None\<close> when reading
  or parsing it throws. \<open>_replayWal\<close> sorts the names and applies every entry of every
  file; an exception ends the replay, keeping what was applied. Its parameter
  \<open>walOffset\<close> is not used in its body.
\<close>

type_synonym 'v walFile = "string \<times> 'v walEntry list option"

fun replayFiles :: "'v walFile list \<Rightarrow> ('v, 'r) smState \<Rightarrow> ('v, 'r) smState" where
  "replayFiles [] st = st"
| "replayFiles ((name, None) # fs) st = st"
| "replayFiles ((name, Some entries) # fs) st = replayFiles fs (replaySegment entries st)"

definition replayWal :: "nat \<Rightarrow> 'v walFile list \<Rightarrow> ('v, 'r) smState \<Rightarrow> ('v, 'r) smState" where
  "replayWal walOffset files st = replayFiles (sort_key fst files) st"

text \<open>
  A snapshot as \<open>takeSnapshot\<close> writes it: the offset, and the state with its maps as
  arrays of entries and its set as an array.
\<close>

record ('v, 'r) snapshot =
  walOffset :: nat
  snapPositions :: "(string \<times> 'v obj) list"
  snapSeenMints :: "(string \<times> 'v obj) list"
  snapCompletedMints :: "string list"
  snapRest :: 'r

text \<open>The decimal numeral of an array index, as \<open>Object.entries\<close> gives it.\<close>

function showNat :: "nat \<Rightarrow> string" where
  "showNat n =
     (if n < 10 then [''0123456789'' ! n]
      else showNat (n div 10) @ [''0123456789'' ! (n mod 10)])"
  by pat_completeness auto
termination
  by (relation "measure id") auto

text \<open>\<open>new Map(Object.entries(array))\<close> on an array of \<open>[key, object]\<close> pairs.\<close>

definition mapOfEntries :: "(string \<times> 'v obj) list \<Rightarrow> (string \<rightharpoonup> 'v pval)" where
  "mapOfEntries xs =
     map_of (zip (map showNat [0 ..< length xs]) (map (\<lambda>(k, f). FromList k f Map.empty) xs))"

text \<open>
  \<open>load\<close>, given what \<open>_loadLatestSnapshot\<close> returned and the files of the \<open>wal\<close>
  directory, with \<open>config.persistence.useWal\<close> as the first argument. The result is the
  recovered state, \<open>None\<close> when there is no snapshot.
\<close>

definition load ::
  "bool \<Rightarrow> ('v, 'r) snapshot option \<Rightarrow> 'v walFile list \<Rightarrow> ('v, 'r) smState option" where
  "load useWal latest files =
     (case latest of
        None \<Rightarrow> None
      | Some snap \<Rightarrow>
          let st = \<lparr> smPositions = mapOfEntries (snapPositions snap),
                     smSeenMints = mapOfEntries (snapSeenMints snap),
                     smCompletedMints = set (snapCompletedMints snap),
                     smRest = snapRest snap \<rparr>
          in Some (if useWal then replayWal (walOffset snap) files st else st))"

text \<open>
  The manager object as far as snapshot retention needs it: the in-memory state (absent
  before \<open>initialize\<close> or \<open>load\<close>), the WAL buffer, and the names of the files in the
  \<open>snapshots\<close> directory in the order of their creation. The contents of the snapshot
  files play no part in retention and are left out here.
\<close>

record ('v, 'r) stateManager =
  memState :: "('v, 'r) smState option"
  walBuffer :: "'v walEntry list"
  snapshotDir :: "string list"

text \<open>\<open>f.startsWith('snapshot_') && f.endsWith('.json')\<close>\<close>

definition isSnapshotFile :: "string \<Rightarrow> bool" where
  "isSnapshotFile f =
     (take 9 f = ''snapshot_'' \<and> length f \<ge> 5 \<and> drop (length f - 5) f = ''.json'')"

text \<open>
  \<open>_cleanupOldSnapshots\<close>. The order in which \<open>fs.readdir\<close> lists a directory is the
  file system's; it is the parameter \<open>readdir\<close>, from the directory to its listing. The
  code takes the listing as it comes (the \<open>mtime\<close> it requests for each file is never
  read) and unlinks all but the last five snapshot names of it.
\<close>

definition cleanupOldSnapshots :: "(string list \<Rightarrow> string list) \<Rightarrow> string list \<Rightarrow> string list" where
  "cleanupOldSnapshots readdir dir =
     (let snapshots = filter isSnapshotFile (readdir dir)
      in if length snapshots > 5
         then
           let toDelete = take (length snapshots - 5) snapshots
           in filter (\<lambda>f. f \<notin> set toDelete) dir
         else dir)"

text \<open>
  \<open>takeSnapshot\<close>, with the identifier that \<open>crypto.randomUUID()\<close> returned: nothing
  happens without a state; otherwise the snapshot is written and renamed into place (a
  file of that name is replaced), old snapshots are cleaned up, and the WAL buffer is
  emptied. The result is the identifier.
\<close>

definition takeSnapshot ::
  "(string list \<Rightarrow> string list) \<Rightarrow> string \<Rightarrow> ('v, 'r) stateManager
     \<Rightarrow> string option \<times> ('v, 'r) stateManager" where
  "takeSnapshot readdir snapshotId sm =
     (case memState sm of
        None \<Rightarrow> (None, sm)
      | Some st \<Rightarrow>
          let finalPath = ''snapshot_'' @ snapshotId @ ''.json'';
              dir1 = (if finalPath \<in> set (snapshotDir sm) then snapshotDir sm
                      else snapshotDir sm @ [finalPath]);
              dir2 = cleanupOldSnapshots readdir dir1
          in (Some snapshotId, sm\<lparr> snapshotDir := dir2, walBuffer := [] \<rparr>))"

text \<open>Successive snapshot cycles, one per identifier.\<close>

definition snapshotCycles ::
  "(string list \<Rightarrow> string list) \<Rightarrow> string list \<Rightarrow> ('v, 'r) stateManager \<Rightarrow> ('v, 'r) stateManager" where
  "snapshotCycles readdir ids sm = fold (\<lambda>i s. snd (takeSnapshot readdir i s)) ids sm"

subsection \<open>Snapshot files and directory listings\<close>

text \<open>
  The name of the snapshot file with identifier \<open>i\<close>, and what is assumed of a
  directory listing where one is needed: it lists every file of the directory once.
\<close>

definition snapshotName :: "string \<Rightarrow> string" where
  "snapshotName i = ''snapshot_'' @ i @ ''.json''"

definition faithfulListing :: "(string list \<Rightarrow> string list) \<Rightarrow> bool" where
  "faithfulListing readdir = (\<forall>d. distinct d \<longrightarrow> distinct (readdir d) \<and> set (readdir d) = set d)"

subsection \<open>The effect of a replay on one key\<close>

text \<open>
  What an entry does to the value stored under the key \<open>k\<close> of the positions map and of
  the seen-mints map. These two functions serve the proofs only.
\<close>

fun keyAct :: "string \<Rightarrow> 'v walEntry \<Rightarrow> 'v pval option \<Rightarrow> 'v pval option" where
  "keyAct k (POSITION_OPENED m p) x = (if m = k then Some (Plain p) else x)"
| "keyAct k (POSITION_UPDATED m u) x = (if m = k then map_option (\<lambda>v. assign v u) x else x)"
| "keyAct k (POSITION_CLOSED m) x = (if m = k then None else x)"
| "keyAct k _ x = x"

fun seenAct :: "string \<Rightarrow> 'v walEntry \<Rightarrow> 'v pval option \<Rightarrow> 'v pval option" where
  "seenAct k (MINT_SEEN m d) x = (if m = k then Some (Plain d) else x)"
| "seenAct k _ x = x"

subsection \<open>A recovery scenario\<close>

text \<open>
  Two positions \<open>M\<close> and \<open>N\<close> were opened. The entry for \<open>M\<close> was flushed to the segment
  \<open>wal_1000.log\<close>; the entry for \<open>N\<close> was still in the buffer when the snapshot was
  taken, so the snapshot holds both positions and records the offset 1.
\<close>

definition examplePos :: "string obj" where
  "examplePos = [''state'' \<mapsto> ''IN_POSITION'']"

definition exampleSnapshot :: "(string, unit) snapshot" where
  "exampleSnapshot =
     \<lparr> walOffset = 1,
       snapPositions = [(''M'', examplePos), (''N'', examplePos)],
       snapSeenMints = [], snapCompletedMints = [], snapRest = () \<rparr>"

definition exampleWalDir :: "string walFile list" where
  "exampleWalDir = [(''wal_1000.log'', Some [POSITION_OPENED ''M'' examplePos])]"

subsection \<open>A retention scenario\<close>

text \<open>
  A manager with a state and an empty snapshot directory, seven snapshot identifiers, and
  a file system that lists a directory by name.
\<close>

definition exampleStateManager :: "(string, unit) stateManager" where
  "exampleStateManager =
     \<lparr> memState = Some \<lparr> smPositions = Map.empty, smSeenMints = Map.empty,
                          smCompletedMints = {}, smRest = () \<rparr>,
       walBuffer = [], snapshotDir = [] \<rparr>"

definition exampleIds :: "string list" where
  "exampleIds = [''f1'', ''e2'', ''d3'', ''c4'', ''b5'', ''a6'', ''07'']"

definition listByName :: "string list \<Rightarrow> string list" where
  "listByName dir = sort dir"

section \<open>Validation queue (ValidationQueue, TTLCache)\<close>

text \<open>
  \<open>TTLCache\<close>: a \<open>Map\<close> from key to the time of insertion. \<open>has\<close> treats a stored
  time of 0 as absent (it is falsy) and deletes an entry older than the time to live.
\<close>

definition cacheHas ::
  "int \<Rightarrow> int \<Rightarrow> string \<Rightarrow> (string \<times> int) list \<Rightarrow> bool \<times> (string \<times> int) list" where
  "cacheHas ttlMs t key m =
     (case map_of m key of
        None \<Rightarrow> (False, m)
      | Some v \<Rightarrow>
          if v = 0 then (False, m)
          else if t - v > ttlMs then (False, mapDelete key m)
          else (True, m))"

definition cacheAdd :: "int \<Rightarrow> string \<Rightarrow> (string \<times> int) list \<Rightarrow> (string \<times> int) list" where
  "cacheAdd t key m = mapSet key t m"

record 'm job =
  jobMint :: string
  jobMetadata :: 'm
  enqueueTime :: int

record qstats =
  queued :: nat
  processed :: nat
  failed :: nat
  entered :: nat
  skipped :: nat

text \<open>
  The queue object. \<open>running\<close> holds the jobs that \<open>_drain\<close> has started and whose
  \<open>finally\<close> handler has not run yet; the flag tells whether \<open>_processJob\<close> has
  returned. \<open>outcomes\<close> is the sequence of ENTER and PASS results that \<open>_processJob\<close>
  logs, with the mint of each; \<open>signals\<close> the sequence of emitted signals.
\<close>

record 'm vqueue =
  concurrency :: int
  q :: "'m job list"
  active :: int
  running :: "('m job \<times> bool) list"
  validatedMints :: "(string \<times> int) list"
  qstats :: qstats
  outcomes :: "(string \<times> result) list"
  signals :: "(string \<times> enterInfo \<times> 'm) list"

text \<open>The queue as its constructor leaves it; the cache of validated mints lives one hour.\<close>

definition validatedTtlMs :: int where
  "validatedTtlMs = 60 * 60 * 1000"

definition newQueue :: "int \<Rightarrow> 'm vqueue" where
  "newQueue c =
     \<lparr> concurrency = c, q = [], active = 0, running = [], validatedMints = [],
       qstats = \<lparr> queued = 0, processed = 0, failed = 0, entered = 0, skipped = 0 \<rparr>,
       outcomes = [], signals = [] \<rparr>"

text \<open>The loop of \<open>_drain\<close>: start jobs from the head of the queue while a worker is free.\<close>

fun drainLoop ::
  "int \<Rightarrow> int \<Rightarrow> 'm job list \<Rightarrow> ('m job \<times> bool) list
     \<Rightarrow> int \<times> 'm job list \<times> ('m job \<times> bool) list" where
  "drainLoop c a [] rs = (a, [], rs)"
| "drainLoop c a (j # js) rs =
     (if a < c then drainLoop c (a + 1) js (rs @ [(j, False)]) else (a, j # js, rs))"

definition drain :: "'m vqueue \<Rightarrow> 'm vqueue" where
  "drain s =
     (case drainLoop (concurrency s) (active s) (q s) (running s) of
        (a, js, rs) \<Rightarrow> s\<lparr> active := a, q := js, running := rs \<rparr>)"

definition push :: "string \<Rightarrow> 'm \<Rightarrow> int \<Rightarrow> 'm vqueue \<Rightarrow> 'm vqueue" where
  "push m md t s =
     (case cacheHas validatedTtlMs t m (validatedMints s) of
        (h, cache) \<Rightarrow>
          let s1 = s\<lparr> validatedMints := cache \<rparr>
          in if h then s1
             else drain (s1\<lparr> qstats := (qstats s1)\<lparr> queued := queued (qstats s1) + 1 \<rparr>,
                              q := q s1 @ [\<lparr> jobMint = m, jobMetadata = md, enqueueTime = t \<rparr>] \<rparr>))"

text \<open>
  What the calls of one job fetched: the curve data (\<open>None\<close> for \<open>null\<close>), the mint
  information, and the random draws.
\<close>

record fetched =
  fetchedCurve :: "curveData option"
  fetchedMint :: mintInfo
  fetchedDraws :: draws

text \<open>
  The body of \<open>_processJob\<close> for the started job at index \<open>i\<close>, at the moment its
  pipeline returns: the mint is added to the cache of validated mints and the result is
  logged, with a signal on ENTER.
\<close>

definition processJob ::
  "scannerConfig \<Rightarrow> momentumConfig \<Rightarrow> nat \<Rightarrow> int \<Rightarrow> fetched \<Rightarrow> 'm vqueue \<Rightarrow> 'm vqueue" where
  "processJob scanner momentum i t f s =
     (if i < length (running s) \<and> \<not> snd (running s ! i) then
        let j = fst (running s ! i);
            res = runValidationPipeline scanner momentum (fetchedDraws f) (fetchedCurve f)
                    (fetchedMint f);
            s1 = s\<lparr> validatedMints := cacheAdd t (jobMint j) (validatedMints s),
                     running := (running s)[i := (j, True)],
                     outcomes := outcomes s @ [(jobMint j, res)] \<rparr>
        in case res of
             ENTER e \<Rightarrow>
               s1\<lparr> qstats := (qstats s1)\<lparr> entered := entered (qstats s1) + 1 \<rparr>,
                   signals := signals s1 @ [(jobMint j, e, jobMetadata j)] \<rparr>
           | PASS r \<Rightarrow>
               s1\<lparr> qstats := (qstats s1)\<lparr> skipped := skipped (qstats s1) + 1 \<rparr> \<rparr>
      else s)"

text \<open>The \<open>finally\<close> handler of a job whose \<open>_processJob\<close> has returned.\<close>

definition settle :: "nat \<Rightarrow> 'm vqueue \<Rightarrow> 'm vqueue" where
  "settle i s =
     (if i < length (running s) \<and> snd (running s ! i) then
        drain (s\<lparr> running := take i (running s) @ drop (Suc i) (running s),
                  active := active s - 1,
                  qstats := (qstats s)\<lparr> processed := processed (qstats s) + 1 \<rparr> \<rparr>)
      else s)"

text \<open>
  The program is single-threaded; its steps interleave at the \<open>await\<close>s. A run of the
  queue is a sequence of such steps: a call of \<open>push\<close>, the return of a started job's
  pipeline, or the \<open>finally\<close> handler of a returned job.
\<close>

datatype 'm qevent = Push string 'm int | Complete nat int fetched | Settle nat

fun step :: "scannerConfig \<Rightarrow> momentumConfig \<Rightarrow> 'm qevent \<Rightarrow> 'm vqueue \<Rightarrow> 'm vqueue" where
  "step scanner momentum (Push m md t) s = push m md t s"
| "step scanner momentum (Complete i t f) s = processJob scanner momentum i t f s"
| "step scanner momentum (Settle i) s = settle i s"

definition run ::
  "scannerConfig \<Rightarrow> momentumConfig \<Rightarrow> 'm qevent list \<Rightarrow> 'm vqueue \<Rightarrow> 'm vqueue" where
  "run scanner momentum evs s = fold (step scanner momentum) evs s"

text \<open>The queue is drained when nothing waits and nothing runs.\<close>

definition drained :: "'m vqueue \<Rightarrow> bool" where
  "drained s = (q s = [] \<and> running s = [])"

definition outcomesFor :: "string \<Rightarrow> 'm vqueue \<Rightarrow> nat" where
  "outcomesFor m s = length (filter (\<lambda>x. fst x = m) (outcomes s))"

text \<open>The jobs of a mint that have not produced their outcome yet.\<close>

definition pendingFor :: "string \<Rightarrow> 'm vqueue \<Rightarrow> nat" where
  "pendingFor m s =
     length (filter (\<lambda>j. jobMint j = m) (q s))
     + length (filter (\<lambda>r. jobMint (fst r) = m \<and> \<not> snd r) (running s))"

fun isPushFor :: "string \<Rightarrow> 'm qevent \<Rightarrow> bool" where
  "isPushFor m (Push m' md t) = (m' = m)"
| "isPushFor m _ = False"

text \<open>The fetch results of a job whose curve account was not found.\<close>

definition exampleFetched :: fetched where
  "exampleFetched =
     \<lparr> fetchedCurve = None, fetchedMint = MintNew,
       fetchedDraws = \<lparr> volumeDraw = 0, initialBuyDraw = 0 \<rparr> \<rparr>"

subsection \<open>Quantities and the invariant used in the proofs\<close>

text \<open>The outcomes of a mint together with its jobs still to produce one.\<close>

definition totalFor :: "string \<Rightarrow> 'm vqueue \<Rightarrow> nat" where
  "totalFor m s = outcomesFor m s + pendingFor m s"

text \<open>
  After every step \<open>active\<close> counts the started jobs, and jobs wait only while all
  workers are busy.
\<close>

definition qinv :: "'m vqueue \<Rightarrow> bool" where
  "qinv s =
     (active s = int (length (running s)) \<and> (q s \<noteq> [] \<longrightarrow> concurrency s \<le> active s))"

definition loadSize :: "'m vqueue \<Rightarrow> nat" where
  "loadSize s = length (q s) + length (running s)"

text \<open>The first started job returns with the fetch results \<open>f\<close>, and its handler runs.\<close>

definition finishFirst ::
  "scannerConfig \<Rightarrow> momentumConfig \<Rightarrow> int \<Rightarrow> fetched \<Rightarrow> 'm vqueue \<Rightarrow> 'm vqueue" where
  "finishFirst scanner momentum t f s = settle 0 (processJob scanner momentum 0 t f s)"

text \<open>A run on a new queue with three workers in which the same mint is enqueued twice at once.\<close>

definition exampleRunTwice :: "unit vqueue" where
  "exampleRunTwice =
     run defaultScanner defaultMomentum
       [Push ''M'' () 0, Push ''M'' () 1, Complete 0 2 exampleFetched, Settle 0,
        Complete 0 3 exampleFetched, Settle 0]
       (newQueue 3)"

subsection \<open>Further examples\<close>

text \<open>
  An exit configuration in which a profit of 75 per cent meets the conditions of tier 1,
  of tier 2 and of the stop-loss at once, and a world in which the parabolic check
  succeeds and the time limit has passed.
\<close>

definition exampleOverlapExit :: exitConfig where
  "exampleOverlapExit = defaultExit\<lparr> tier2MinPct := 60, stopLossPct := 80 \<rparr>"

definition exampleBusyWorld :: world where
  "exampleBusyWorld = \<lparr> now = 2000, currentSlot = 1000, parabolicDraw = 9/10 \<rparr>"

text \<open>A mint that occurs nowhere in the queue: not waiting, not started, not validated, not logged.\<close>

definition absentFor :: "string \<Rightarrow> 'm vqueue \<Rightarrow> bool" where
  "absentFor m s =
     (m \<notin> jobMint ` set (q s) \<and> m \<notin> (\<lambda>r. jobMint (fst r)) ` set (running s)
      \<and> m \<notin> fst ` set (validatedMints s) \<and> m \<notin> fst ` set (outcomes s))"

text \<open>
  The fetch results of an established candidate that is entered; a queue with one worker
  that is busy with the mint \<open>N\<close>; the same queue after \<open>M\<close> was enqueued behind it;
  and the returns that drain the queue after one and after two enqueues of \<open>M\<close>.
\<close>

definition exampleFetchedEnter :: fetched where
  "exampleFetchedEnter =
     \<lparr> fetchedCurve = Some \<lparr> virtualToken = 0, virtualSol = 0, realToken = 30000000,
                              realSol = 600000000 \<rparr>,
       fetchedMint = MintKnown 50000000,
       fetchedDraws = \<lparr> volumeDraw = 1/4, initialBuyDraw = 0 \<rparr> \<rparr>"

definition exampleBusy :: "unit vqueue" where
  "exampleBusy = run defaultScanner defaultMomentum [Push ''N'' () 0] (newQueue 1)"

definition exampleBusyEvents :: "unit qevent list" where
  "exampleBusyEvents =
     [Complete 0 2 exampleFetched, Settle 0, Complete 0 3 exampleFetchedEnter, Settle 0]"

definition exampleQueued :: "unit vqueue" where
  "exampleQueued = push ''M'' () 1 exampleBusy"

definition exampleAgainEvents :: "unit qevent list" where
  "exampleAgainEvents =
     [Complete 0 3 exampleFetched, Settle 0, Complete 0 4 exampleFetchedEnter, Settle 0,
      Complete 0 5 exampleFetchedEnter, Settle 0]"

section \<open>Properties of the curve progress\<close>

lemma sdiv_nonneg: "0 \<le> a \<Longrightarrow> 0 < b \<Longrightarrow> (a::int) sdiv b = a div b"
  by (simp add: signed_divide_int_def sgn_if)

lemma computeProgressPct_pos:
  "0 < s \<Longrightarrow> computeProgressPct rt s =
     max 0 (min 100 (real_of_int (((if s > rt then s - rt else 0) * 10000) div s) / 100))"
  unfolding computeProgressPct_def Let_def
  by (simp add: sdiv_nonneg)

lemma computeProgressPct_bounds:
  "0 \<le> computeProgressPct rt s" "computeProgressPct rt s \<le> 100"
  unfolding computeProgressPct_def Let_def by auto

lemma computeProgressPct_same: "computeProgressPct s s = 0"
  unfolding computeProgressPct_def Let_def by auto

lemma computeProgressPct_antimono:
  assumes "0 < s" "rt1 \<le> rt2"
  shows "computeProgressPct rt2 s \<le> computeProgressPct rt1 s"
proof -
  have "((if s > rt2 then s - rt2 else 0) * 10000) div s
      \<le> ((if s > rt1 then s - rt1 else 0) * 10000) div s"
    using assms by (intro zdiv_mono1) auto
  then have "real_of_int (((if s > rt2 then s - rt2 else 0) * 10000) div s) / 100
      \<le> real_of_int (((if s > rt1 then s - rt1 else 0) * 10000) div s) / 100"
    by simp
  then show ?thesis
    unfolding computeProgressPct_pos [OF assms(1)] by (simp add: max_def min_def)
qed

lemma uint_pos: "(w :: u64) \<noteq> 0 \<Longrightarrow> 0 < uint w"
  by (simp add: word_neq_0_conv word_less_def)

text \<open>
  Claim C8. For every nonzero unsigned 64-bit supply and every unsigned 64-bit real-token
  reserve, \<open>computeProgressPct\<close> lies in [0, 100]; it is 0 when the reserve equals the
  supply; and with the supply fixed, a smaller reserve never gives a smaller progress.
\<close>

theorem computeProgressPct_bounded_zero_monotone:
  assumes "(supply :: u64) \<noteq> 0" and "(rt1 :: u64) \<le> rt2"
  shows "0 \<le> computeProgressPct (uint (rt :: u64)) (uint supply)
       \<and> computeProgressPct (uint rt) (uint supply) \<le> 100
       \<and> computeProgressPct (uint supply) (uint supply) = 0
       \<and> computeProgressPct (uint rt2) (uint supply) \<le> computeProgressPct (uint rt1) (uint supply)"
proof -
  have "uint rt1 \<le> uint rt2"
    using assms(2) by (simp add: word_le_def)
  then have "computeProgressPct (uint rt2) (uint supply) \<le> computeProgressPct (uint rt1) (uint supply)"
    by (rule computeProgressPct_antimono [OF uint_pos [OF assms(1)]])
  then show ?thesis
    by (simp add: computeProgressPct_bounds computeProgressPct_same)
qed

theorem computeProgressPct_bounded_zero_monotone_witness:
  "(5 :: u64) \<noteq> 0 \<and> (1 :: u64) \<le> 3
   \<and> computeProgressPct (uint (3 :: u64)) (uint (5 :: u64)) = 40
   \<and> computeProgressPct (uint (1 :: u64)) (uint (5 :: u64)) = 80
   \<and> computeProgressPct (uint (5 :: u64)) (uint (5 :: u64)) = 0
   \<and> computeProgressPct (uint (3 :: u64)) (uint (5 :: u64))
       \<le> computeProgressPct (uint (1 :: u64)) (uint (5 :: u64))"
  using computeProgressPct_bounded_zero_monotone [of 5 1 3 3]
  by (simp add: computeProgressPct_def signed_divide_int_def)

section \<open>Properties of the validation pipeline\<close>

lemma calculateEarlyScore_range:
  assumes "0 \<le> prog" "prog \<le> 70" "basicLiquiditySol bv \<ge> 15/100"
  shows "85 \<le> calculateEarlyScore bv prog \<and> calculateEarlyScore bv prog \<le> 100"
  using assms unfolding calculateEarlyScore_def Let_def by auto

text \<open>
  Claim C7. An established candidate (the mint account was not reported as new) whose
  computed curve progress is 40, liquidity 0.6 SOL, estimated holders 20 and estimated
  volume 1.0 SOL is entered with tier HOT under the default configuration; its momentum
  score is 41. The initial-buy draw is a \<open>Math.random()\<close> value, so it is not negative.
\<close>

theorem established_candidate_enters_hot:
  assumes "mi \<noteq> MintNew"
    and "computeProgressPct (uint (realToken cd)) (supplyOf mi cd) = 40"
    and "real_of_int (uint (realSol cd)) / 1000000000 = 6/10"
    and "real_of_int (supplyOf mi cd - uint (realToken cd)) / 1000000 = 20"
    and "estimateVolume d = 1"
    and "0 \<le> initialBuyDraw d"
  shows "\<exists>e. runValidationPipeline defaultScanner defaultMomentum d (Some cd) mi = ENTER e
           \<and> enterTier e = HOT \<and> momentumScore e = 41"
proof -
  have dv: "deepValidate defaultScanner d mi cd =
      Inr \<lparr> estimatedHolders = 20, estimatedVolumeSol = 1, liquiditySol = 6/10 \<rparr>"
    unfolding deepValidate_def Let_def assms(3,4,5)
    using assms(6) by (simp add: defaultScanner_def getInitialBuy_def)
  have sc: "calculateMomentumScore defaultMomentum
      \<lparr> estimatedHolders = 20, estimatedVolumeSol = 1, liquiditySol = l \<rparr> 40 = 41" for l
    by (simp add: calculateMomentumScore_def defaultMomentum_def js_round_def)
  have ti: "getTier defaultMomentum 41 = HOT"
    by (simp add: getTier_def defaultMomentum_def defaultTiers_def)
  have cfg: "maxCurveProgress defaultScanner = 99" "minCurveProgress defaultScanner = 0"
    "minScore defaultMomentum = 40"
    by (simp_all add: defaultScanner_def defaultMomentum_def)
  show ?thesis
    using assms(1) by (simp add: runValidationPipeline_def Let_def assms(2) dv sc ti cfg)
qed

theorem established_candidate_enters_hot_witness:
  "MintKnown 50000000 \<noteq> MintNew
   \<and> estimateVolume \<lparr> volumeDraw = 1/4, initialBuyDraw = 0 \<rparr> = 1
   \<and> (\<exists>e. runValidationPipeline defaultScanner defaultMomentum
             \<lparr> volumeDraw = 1/4, initialBuyDraw = 0 \<rparr>
             (Some \<lparr> virtualToken = 0, virtualSol = 0, realToken = 30000000, realSol = 600000000 \<rparr>)
             (MintKnown 50000000) = ENTER e
         \<and> enterTier e = HOT \<and> momentumScore e = 41)"
  using established_candidate_enters_hot [of "MintKnown 50000000"
      "\<lparr> virtualToken = 0, virtualSol = 0, realToken = 30000000, realSol = 600000000 \<rparr>"
      "\<lparr> volumeDraw = 1/4, initialBuyDraw = 0 \<rparr>"]
  by (simp add: supplyOf_def computeProgressPct_def signed_divide_int_def estimateVolume_def)

text \<open>
  Claim C10. On the new-token path with the default configuration: the early score of a
  candidate with progress in [0, 70] and liquidity of at least 0.15 SOL lies in [85, 100];
  the pipeline never rejects with \<open>WEAK_EARLY_MOMENTUM\<close>; every entry it returns has a
  score in [85, 100] and tier \<open>EXTREME\<close>; and a new candidate whose curve was fetched
  and whose liquidity is at least 0.15 SOL is entered.
\<close>

theorem new_token_score_at_least_85:
  "(\<forall>prog bv. 0 \<le> prog \<and> prog \<le> 70 \<and> basicLiquiditySol bv \<ge> 15/100 \<longrightarrow>
       85 \<le> calculateEarlyScore bv prog \<and> calculateEarlyScore bv prog \<le> 100)
   \<and> runValidationPipeline defaultScanner defaultMomentum d curve MintNew \<noteq> PASS WEAK_EARLY_MOMENTUM
   \<and> (\<forall>e. runValidationPipeline defaultScanner defaultMomentum d curve MintNew = ENTER e \<longrightarrow>
         85 \<le> momentumScore e \<and> momentumScore e \<le> 100 \<and> enterTier e = EXTREME)
   \<and> (\<forall>cd. curve = Some cd \<and> real_of_int (uint (realSol cd)) / 1000000000 \<ge> 15/100 \<longrightarrow>
         (\<exists>e. runValidationPipeline defaultScanner defaultMomentum d curve MintNew = ENTER e))"
proof (intro conjI allI impI)
  fix prog :: real and bv :: basicOk
  assume "0 \<le> prog \<and> prog \<le> 70 \<and> basicLiquiditySol bv \<ge> 15/100"
  then show "85 \<le> calculateEarlyScore bv prog" "calculateEarlyScore bv prog \<le> 100"
    using calculateEarlyScore_range by blast+
next
  show "runValidationPipeline defaultScanner defaultMomentum d curve MintNew \<noteq> PASS WEAK_EARLY_MOMENTUM"
    by (cases curve)
      (auto simp: runValidationPipeline_def supplyOf_def computeProgressPct_same basicValidate_def
        calculateEarlyScore_def defaultScanner_def defaultMomentum_def Let_def)
next
  fix e
  assume "runValidationPipeline defaultScanner defaultMomentum d curve MintNew = ENTER e"
  then show "85 \<le> momentumScore e" "momentumScore e \<le> 100" "enterTier e = EXTREME"
    by (cases curve;
      auto simp: runValidationPipeline_def supplyOf_def computeProgressPct_same basicValidate_def
        calculateEarlyScore_def defaultScanner_def defaultMomentum_def Let_def split: if_splits)+
next
  fix cd
  assume "curve = Some cd \<and> real_of_int (uint (realSol cd)) / 1000000000 \<ge> 15/100"
  then show "\<exists>e. runValidationPipeline defaultScanner defaultMomentum d curve MintNew = ENTER e"
    by (auto simp: runValidationPipeline_def supplyOf_def computeProgressPct_same basicValidate_def
        calculateEarlyScore_def defaultScanner_def defaultMomentum_def Let_def)
qed

theorem new_token_score_at_least_85_witness:
  "(0::real) \<le> 0 \<and> (0::real) \<le> 70
   \<and> 85 \<le> calculateEarlyScore \<lparr> basicLiquiditySol = 2/10, basicProgress = 0 \<rparr> 0
   \<and> (\<exists>e. runValidationPipeline defaultScanner defaultMomentum \<lparr> volumeDraw = 0, initialBuyDraw = 0 \<rparr>
          (Some \<lparr> virtualToken = 0, virtualSol = 0, realToken = 1000000, realSol = 200000000 \<rparr>) MintNew = ENTER e
         \<and> 85 \<le> momentumScore e \<and> enterTier e = EXTREME)"
  using new_token_score_at_least_85 [of "\<lparr> volumeDraw = 0, initialBuyDraw = 0 \<rparr>"
      "Some \<lparr> virtualToken = 0, virtualSol = 0, realToken = 1000000, realSol = 200000000 \<rparr>"]
  by (auto simp: calculateEarlyScore_def)

section \<open>Properties of the position manager\<close>

lemmas eval_defs = evaluatePosition_def priceFromSignal_def computePnlPct_def jsub_def
  truthy_def executePartialExit_def executeFullExit_def recordTrade_def writeBack_def
  defaultExit_def jge_def jgt_def Let_def mapDelete_def checkParabolicMove_def
  checkFeeBalanceDumpRisk_def

lemmas example_defs = exampleWorld_def exampleArgs_def examplePosition_def exampleManager_def
  exampleSingle_def exampleFull_def exampleLosing_def

text \<open>The example managers are reached from the constructor by \<open>openPosition\<close>.\<close>

lemma example_open:
  "openPosition defaultTrading exampleWorld (exampleArgs ''M'' vs) (newManager ''d'') =
     (Some (examplePosition ''M'' vs), exampleSingle vs)"
  by (simp add: openPosition_def defaultTrading_def example_defs newManager_def
      isDailyLossLimitHit_def jge_def Let_def)

lemma example_open_three:
  "snd (openPosition defaultTrading exampleWorld (exampleArgs ''C'' 100000)
     (snd (openPosition defaultTrading exampleWorld (exampleArgs ''B'' 100000)
       (snd (openPosition defaultTrading exampleWorld (exampleArgs ''A'' 100000)
         (newManager ''d'')))))) = exampleFull"
  by (simp add: openPosition_def defaultTrading_def example_defs newManager_def
      isDailyLossLimitHit_def jge_def Let_def)

lemma example_tier1:
  "evaluatePosition defaultExit exampleWorld ''M'' (examplePosition ''M'' 175000)
     (exampleSingle 175000) = (Tier1Fired, exampleAfterTier1, exampleManagerAfterTier1)"
  by (simp add: exampleAfterTier1_def exampleManagerAfterTier1_def eval_defs example_defs
      split: prod.splits)

text \<open>The rule that fires is the first in the order of the code whose condition holds.\<close>

lemma fired_chain:
  assumes "priceFromSignal p = Some cp" and "truthy cp"
    and "computePnlPct cp (entryPrice p) = pnl"
  shows "fst (evaluatePosition exit w k p m) =
     (if tier1Enabled exit \<and> \<not> tier1Exited p \<and> state p = IN_POSITION
           \<and> jge pnl (Fin (tier1MinPct exit)) \<and> jle pnl (Fin (tier1MaxPct exit))
      then Tier1Fired
      else if tier2Enabled exit \<and> \<not> tier2Exited p \<and> jge pnl (Fin (tier2MinPct exit))
           \<and> checkParabolicMove w > 20
      then FullExitFired TIER_2_PROFIT
      else if stopLossEnabled exit \<and> jle pnl (Fin (stopLossPct exit))
      then FullExitFired STOP_LOSS
      else if timeDecayEnabled exit \<and> currentSlot w - entrySlot p > timeDecayMaxSlots exit
           \<and> (\<not> timeDecayRequireProfit exit \<or> jgt pnl (Fin 0))
      then FullExitFired TIME_DECAY
      else if checkFeeBalanceDumpRisk k = ''HIGH'' \<and> feeSpikeExit exit
      then FullExitFired FEE_SPIKE
      else Held)"
  using assms
  by (simp add: evaluatePosition_def Let_def split: prod.splits)

lemma tier1_result:
  assumes "priceFromSignal p = Some cp" and "truthy cp"
    and "fst (evaluatePosition exit w k p m) = Tier1Fired"
  shows "state (fst (snd (evaluatePosition exit w k p m))) = TIER_1_EXITED
       \<and> tier1Exited (fst (snd (evaluatePosition exit w k p m)))"
  using assms
  by (simp add: evaluatePosition_def Let_def split: prod.splits if_splits)

text \<open>
  Claim C3, as the code has it. The exit rules are tried in a fixed order with tier 1
  before the stop-loss, for every exit configuration. One evaluation fires the tier-1
  partial exit exactly when tier 1 is enabled, the position is in state \<open>IN_POSITION\<close>,
  its tier-1 exit has not been taken, and the computed \<open>pnlPct\<close> lies in the tier-1
  band, whatever the conditions of the other rules are; the position is then in state
  \<open>TIER_1_EXITED\<close> with \<open>tier1Exited\<close> set. The stop-loss fires exactly when neither
  tier 1 nor tier 2 fires and its own condition holds. With the default configuration
  and a \<open>pnlPct\<close> from 50 to 100 (75 in particular) the stop-loss never fires, and
  tier 1 fires for a position in state \<open>IN_POSITION\<close> that has not taken it.
\<close>

theorem tier1_before_stop_loss:
  assumes "priceFromSignal p = Some cp" and "truthy cp"
    and "computePnlPct cp (entryPrice p) = pnl"
  shows "(fst (evaluatePosition exit w k p m) = Tier1Fired)
           = (tier1Enabled exit \<and> \<not> tier1Exited p \<and> state p = IN_POSITION
              \<and> jge pnl (Fin (tier1MinPct exit)) \<and> jle pnl (Fin (tier1MaxPct exit)))
       \<and> (fst (evaluatePosition exit w k p m) = Tier1Fired \<longrightarrow>
            state (fst (snd (evaluatePosition exit w k p m))) = TIER_1_EXITED
            \<and> tier1Exited (fst (snd (evaluatePosition exit w k p m))))
       \<and> (fst (evaluatePosition exit w k p m) = FullExitFired STOP_LOSS)
           = (\<not> (tier1Enabled exit \<and> \<not> tier1Exited p \<and> state p = IN_POSITION
                 \<and> jge pnl (Fin (tier1MinPct exit)) \<and> jle pnl (Fin (tier1MaxPct exit)))
              \<and> \<not> (tier2Enabled exit \<and> \<not> tier2Exited p \<and> jge pnl (Fin (tier2MinPct exit))
                    \<and> checkParabolicMove w > 20)
              \<and> stopLossEnabled exit \<and> jle pnl (Fin (stopLossPct exit)))
       \<and> (\<forall>x. pnl = Fin x \<and> 50 \<le> x \<and> x \<le> 100 \<longrightarrow>
            fst (evaluatePosition defaultExit w k p m) \<noteq> FullExitFired STOP_LOSS
            \<and> (state p = IN_POSITION \<and> \<not> tier1Exited p \<longrightarrow>
                  fst (evaluatePosition defaultExit w k p m) = Tier1Fired))"
proof (intro conjI)
  show "(fst (evaluatePosition exit w k p m) = Tier1Fired)
           = (tier1Enabled exit \<and> \<not> tier1Exited p \<and> state p = IN_POSITION
              \<and> jge pnl (Fin (tier1MinPct exit)) \<and> jle pnl (Fin (tier1MaxPct exit)))"
    unfolding fired_chain [OF assms] by simp
  show "fst (evaluatePosition exit w k p m) = Tier1Fired \<longrightarrow>
            state (fst (snd (evaluatePosition exit w k p m))) = TIER_1_EXITED
            \<and> tier1Exited (fst (snd (evaluatePosition exit w k p m)))"
    using tier1_result [OF assms(1,2)] by blast
  show "(fst (evaluatePosition exit w k p m) = FullExitFired STOP_LOSS)
           = (\<not> (tier1Enabled exit \<and> \<not> tier1Exited p \<and> state p = IN_POSITION
                 \<and> jge pnl (Fin (tier1MinPct exit)) \<and> jle pnl (Fin (tier1MaxPct exit)))
              \<and> \<not> (tier2Enabled exit \<and> \<not> tier2Exited p \<and> jge pnl (Fin (tier2MinPct exit))
                    \<and> checkParabolicMove w > 20)
              \<and> stopLossEnabled exit \<and> jle pnl (Fin (stopLossPct exit)))"
    unfolding fired_chain [OF assms] by simp
  show "\<forall>x. pnl = Fin x \<and> 50 \<le> x \<and> x \<le> 100 \<longrightarrow>
            fst (evaluatePosition defaultExit w k p m) \<noteq> FullExitFired STOP_LOSS
            \<and> (state p = IN_POSITION \<and> \<not> tier1Exited p \<longrightarrow>
                  fst (evaluatePosition defaultExit w k p m) = Tier1Fired)"
  proof (intro allI impI)
    fix x
    assume "pnl = Fin x \<and> 50 \<le> x \<and> x \<le> 100"
    then show "fst (evaluatePosition defaultExit w k p m) \<noteq> FullExitFired STOP_LOSS
            \<and> (state p = IN_POSITION \<and> \<not> tier1Exited p \<longrightarrow>
                  fst (evaluatePosition defaultExit w k p m) = Tier1Fired)"
      unfolding fired_chain [OF assms] by (simp add: defaultExit_def jge_def)
  qed
qed

theorem tier1_before_stop_loss_witness:
  "priceFromSignal (examplePosition ''M'' 175000) = Some (Fin (7/4)) \<and> truthy (Fin (7/4))
   \<and> computePnlPct (Fin (7/4)) (entryPrice (examplePosition ''M'' 175000)) = Fin 75
   \<and> stopLossEnabled exampleOverlapExit \<and> jle (Fin 75) (Fin (stopLossPct exampleOverlapExit))
   \<and> tier2Enabled exampleOverlapExit \<and> jge (Fin 75) (Fin (tier2MinPct exampleOverlapExit))
   \<and> checkParabolicMove exampleBusyWorld > 20
   \<and> fst (evaluatePosition exampleOverlapExit exampleBusyWorld ''M'' (examplePosition ''M'' 175000)
             (exampleSingle 175000)) = Tier1Fired
   \<and> fst (evaluatePosition exampleOverlapExit exampleBusyWorld ''M'' (examplePosition ''M'' 175000)
             (exampleSingle 175000)) \<noteq> FullExitFired STOP_LOSS
   \<and> state (fst (snd (evaluatePosition exampleOverlapExit exampleBusyWorld ''M''
             (examplePosition ''M'' 175000) (exampleSingle 175000)))) = TIER_1_EXITED
   \<and> fst (evaluatePosition defaultExit exampleWorld ''M'' (examplePosition ''M'' 175000)
             (exampleSingle 175000)) = Tier1Fired"
  using tier1_before_stop_loss [of "examplePosition ''M'' 175000" "Fin (7/4)" "Fin 75" exampleOverlapExit
      exampleBusyWorld "''M''" "exampleSingle 175000"]
    tier1_before_stop_loss [of "examplePosition ''M'' 175000" "Fin (7/4)" "Fin 75" defaultExit
      exampleWorld "''M''" "exampleSingle 175000"]
  by (simp add: priceFromSignal_def computePnlPct_def jsub_def truthy_def examplePosition_def
      exampleOverlapExit_def exampleBusyWorld_def defaultExit_def jge_def checkParabolicMove_def)

text \<open>
  Claim C3 as stated fails. After its tier-1 exit the example position is in state
  \<open>TIER_1_EXITED\<close>, which is not terminal, and its computed \<open>pnlPct\<close> is still 75;
  the next evaluation does not fire the tier-1 exit: it holds.
\<close>

theorem tier1_not_fired_again_counterexample:
  "state exampleAfterTier1 = TIER_1_EXITED
   \<and> map_of (positions exampleManagerAfterTier1) ''M'' = Some exampleAfterTier1
   \<and> priceFromSignal exampleAfterTier1 = Some (Fin (7/4)) \<and> truthy (Fin (7/4))
   \<and> computePnlPct (Fin (7/4)) (entryPrice exampleAfterTier1) = Fin 75
   \<and> fst (evaluatePosition defaultExit exampleWorld ''M'' exampleAfterTier1
             exampleManagerAfterTier1) = Held"
  by (simp add: exampleAfterTier1_def exampleManagerAfterTier1_def eval_defs example_defs)

text \<open>
  Claim C4. With the default exit configuration, one evaluation of a position in state
  \<open>IN_POSITION\<close> whose computed \<open>pnlPct\<close> is the finite value \<open>x\<close> fires the stop-loss
  full exit exactly when \<open>x \<le> -15\<close>, and the position leaves the evaluation in state
  \<open>STOPPED\<close> exactly then.
\<close>

theorem stop_loss_boundary:
  assumes "priceFromSignal p = Some cp" and "truthy cp"
    and "computePnlPct cp (entryPrice p) = Fin x" and "state p = IN_POSITION"
  shows "(fst (evaluatePosition defaultExit w k p m) = FullExitFired STOP_LOSS) = (x \<le> -15)
       \<and> (state (fst (snd (evaluatePosition defaultExit w k p m))) = STOPPED) = (x \<le> -15)"
  using assms
  by (auto simp: evaluatePosition_def defaultExit_def Let_def jge_def jgt_def
      executeFullExit_def executePartialExit_def split: prod.splits)

theorem stop_loss_boundary_witness:
  "priceFromSignal (examplePosition ''M'' 85000) = Some (Fin (85/100))
   \<and> computePnlPct (Fin (85/100)) (entryPrice (examplePosition ''M'' 85000)) = Fin (-15)
   \<and> fst (evaluatePosition defaultExit exampleWorld ''M'' (examplePosition ''M'' 85000)
             (exampleSingle 85000)) = FullExitFired STOP_LOSS
   \<and> state (fst (snd (evaluatePosition defaultExit exampleWorld ''M''
             (examplePosition ''M'' 85000) (exampleSingle 85000)))) = STOPPED
   \<and> priceFromSignal (examplePosition ''M'' 85001) = Some (Fin (85001/100000))
   \<and> computePnlPct (Fin (85001/100000)) (entryPrice (examplePosition ''M'' 85001))
       = Fin (-14999/1000)
   \<and> fst (evaluatePosition defaultExit exampleWorld ''M'' (examplePosition ''M'' 85001)
             (exampleSingle 85001)) \<noteq> FullExitFired STOP_LOSS
   \<and> state (fst (snd (evaluatePosition defaultExit exampleWorld ''M''
             (examplePosition ''M'' 85001) (exampleSingle 85001)))) \<noteq> STOPPED"
  using stop_loss_boundary [of "examplePosition ''M'' 85000" "Fin (85/100)" "-15"
      exampleWorld "''M''" "exampleSingle 85000"]
    stop_loss_boundary [of "examplePosition ''M'' 85001" "Fin (85001/100000)" "-14999/1000"
      exampleWorld "''M''" "exampleSingle 85001"]
  by (simp add: priceFromSignal_def computePnlPct_def jsub_def truthy_def examplePosition_def)




section \<open>Properties of the state manager\<close>

lemma positions_apply: "smPositions (applyWalEntry e st) k = keyAct k e (smPositions st k)"
  by (cases e) (auto split: option.splits)

lemma positions_fold:
  "smPositions (fold applyWalEntry es st) k = fold (keyAct k) es (smPositions st k)"
  by (induction es arbitrary: st) (simp_all add: positions_apply)

lemma assign_assign: "assign (assign v u) w = assign v (u ++ w)"
  by (cases v) simp_all

lemma assign_empty: "assign v Map.empty = v"
  by (cases v) simp_all

lemma map_add_self: "w ++ w = (w :: 'a \<rightharpoonup> 'b)"
  by (rule ext) (simp add: map_add_def split: option.splits)

text \<open>
  Whatever the segment, its effect on one key either forgets the old value or merges one
  fixed object into it.
\<close>

lemma keyAct_normal:
  "(\<exists>c. \<forall>x. fold (keyAct k) es x = c)
   \<or> (\<exists>w. \<forall>x. fold (keyAct k) es x = map_option (\<lambda>v. assign v w) x)"
proof (induction es)
  case Nil
  have "\<forall>x. fold (keyAct k) [] x = map_option (\<lambda>v. assign v Map.empty) x"
    by (simp add: assign_empty option.map_ident)
  then show ?case by blast
next
  case (Cons e es)
  from Cons.IH show ?case
  proof
    assume "\<exists>c. \<forall>x. fold (keyAct k) es x = c"
    then obtain c where "\<forall>x. fold (keyAct k) es x = c" ..
    then have "\<forall>x. fold (keyAct k) (e # es) x = c" by simp
    then show ?thesis by blast
  next
    assume "\<exists>w. \<forall>x. fold (keyAct k) es x = map_option (\<lambda>v. assign v w) x"
    then obtain w where w: "\<And>x. fold (keyAct k) es x = map_option (\<lambda>v. assign v w) x"
      by blast
    show ?thesis
    proof (cases e)
      case (POSITION_OPENED m p)
      show ?thesis
      proof (cases "m = k")
        case True
        then have "\<forall>x. fold (keyAct k) (e # es) x = Some (assign (Plain p) w)"
          using POSITION_OPENED by (simp add: w)
        then show ?thesis by blast
      next
        case False
        then have "\<forall>x. fold (keyAct k) (e # es) x = map_option (\<lambda>v. assign v w) x"
          using POSITION_OPENED by (simp add: w)
        then show ?thesis by blast
      qed
    next
      case (POSITION_UPDATED m u)
      show ?thesis
      proof (cases "m = k")
        case True
        then have "\<forall>x. fold (keyAct k) (e # es) x = map_option (\<lambda>v. assign v (u ++ w)) x"
          using POSITION_UPDATED by (simp add: w option.map_comp comp_def assign_assign)
        then show ?thesis by blast
      next
        case False
        then have "\<forall>x. fold (keyAct k) (e # es) x = map_option (\<lambda>v. assign v w) x"
          using POSITION_UPDATED by (simp add: w)
        then show ?thesis by blast
      qed
    next
      case (POSITION_CLOSED m)
      show ?thesis
      proof (cases "m = k")
        case True
        then have "\<forall>x. fold (keyAct k) (e # es) x = None"
          using POSITION_CLOSED by (simp add: w)
        then show ?thesis by blast
      next
        case False
        then have "\<forall>x. fold (keyAct k) (e # es) x = map_option (\<lambda>v. assign v w) x"
          using POSITION_CLOSED by (simp add: w)
        then show ?thesis by blast
      qed
    next
      case (MINT_SEEN m d)
      then have "\<forall>x. fold (keyAct k) (e # es) x = map_option (\<lambda>v. assign v w) x"
        by (simp add: w)
      then show ?thesis by blast
    next
      case OTHER
      then have "\<forall>x. fold (keyAct k) (e # es) x = map_option (\<lambda>v. assign v w) x"
        by (simp add: w)
      then show ?thesis by blast
    qed
  qed
qed

lemma keyAct_idem: "fold (keyAct k) es (fold (keyAct k) es x) = fold (keyAct k) es x"
  using keyAct_normal [of k es]
  by (auto simp: option.map_comp comp_def assign_assign map_add_self)

lemma seen_apply: "smSeenMints (applyWalEntry e st) k = seenAct k e (smSeenMints st k)"
  by (cases e) (auto split: option.splits)

lemma seen_fold:
  "smSeenMints (fold applyWalEntry es st) k = fold (seenAct k) es (smSeenMints st k)"
  by (induction es arbitrary: st) (simp_all add: seen_apply)

lemma seenAct_normal:
  "(\<exists>c. \<forall>x. fold (seenAct k) es x = c) \<or> (\<forall>x. fold (seenAct k) es x = x)"
proof (induction es)
  case Nil
  show ?case by simp
next
  case (Cons e es)
  have one: "(\<exists>c. \<forall>x. seenAct k e x = c) \<or> (\<forall>x. seenAct k e x = x)"
    by (cases e) auto
  from Cons.IH show ?case
  proof
    assume "\<exists>c. \<forall>x. fold (seenAct k) es x = c"
    then obtain c where "\<forall>x. fold (seenAct k) es x = c" ..
    then have "\<forall>x. fold (seenAct k) (e # es) x = c" by simp
    then show ?thesis by blast
  next
    assume i: "\<forall>x. fold (seenAct k) es x = x"
    from one show ?thesis
    proof
      assume "\<exists>c. \<forall>x. seenAct k e x = c"
      then obtain c where "\<forall>x. seenAct k e x = c" ..
      then have "\<forall>x. fold (seenAct k) (e # es) x = c" using i by simp
      then show ?thesis by blast
    next
      assume "\<forall>x. seenAct k e x = x"
      then have "\<forall>x. fold (seenAct k) (e # es) x = x" using i by simp
      then show ?thesis by blast
    qed
  qed
qed

lemma seenAct_idem: "fold (seenAct k) es (fold (seenAct k) es x) = fold (seenAct k) es x"
  using seenAct_normal [of k es] by metis

lemma rest_apply:
  "smCompletedMints (applyWalEntry e st) = smCompletedMints st
   \<and> smRest (applyWalEntry e st) = smRest st"
  by (cases e) (auto split: option.splits)

lemma rest_fold:
  "smCompletedMints (fold applyWalEntry es st) = smCompletedMints st
   \<and> smRest (fold applyWalEntry es st) = smRest st"
  by (induction es arbitrary: st) (simp_all add: rest_apply)

text \<open>
  Claim C5. For every state and every WAL segment, applying the segment twice gives the
  same positions as applying it once; indeed the whole state is the same. Each replay
  parses the segment anew, as \<open>_replayWal\<close> does, so the two passes share no entry
  object.
\<close>

theorem replay_twice_same_positions:
  "smPositions (replaySegment seg (replaySegment seg st)) = smPositions (replaySegment seg st)
   \<and> replaySegment seg (replaySegment seg st) = replaySegment seg st"
proof -
  let ?a = "fold applyWalEntry seg st"
  have p: "smPositions (fold applyWalEntry seg ?a) = smPositions ?a"
    by (rule ext) (simp add: positions_fold keyAct_idem)
  have s: "smSeenMints (fold applyWalEntry seg ?a) = smSeenMints ?a"
    by (rule ext) (simp add: seen_fold seenAct_idem)
  have c: "smCompletedMints (fold applyWalEntry seg ?a) = smCompletedMints ?a"
    "smRest (fold applyWalEntry seg ?a) = smRest ?a"
    by (simp_all add: rest_fold)
  show ?thesis
    unfolding replaySegment_def using p s c by (simp add: smState.equality)
qed

text \<open>The replay does not depend on the offset it is given.\<close>

lemma replayWal_ignores_offset: "replayWal n files st = replayWal 0 files st"
  by (simp add: replayWal_def)

text \<open>
  Claim C1 fails on the code. In the recovery scenario the snapshot records the offset 1
  and the only entry on disk, the opening of \<open>M\<close>, has index 0; \<open>load\<close> applies it all
  the same. The recovered map then holds \<open>M\<close> next to the two positions of the snapshot,
  which \<open>load\<close> has keyed by their indices \<open>0\<close> and \<open>1\<close>.
\<close>

theorem load_applies_entry_below_offset:
  "walOffset exampleSnapshot = 1
   \<and> (\<exists>st. load True (Some exampleSnapshot) exampleWalDir = Some st
         \<and> smPositions st ''M'' = Some (Plain examplePos)
         \<and> smPositions st ''0'' = Some (FromList ''M'' examplePos Map.empty)
         \<and> smPositions st ''1'' = Some (FromList ''N'' examplePos Map.empty))"
  by (simp add: load_def exampleSnapshot_def exampleWalDir_def replayWal_def
      replaySegment_def mapOfEntries_def Let_def)

text \<open>
  The number of snapshot files is kept at five by every listing: after some cycles with
  fresh identifiers it is the smaller of five and the number of snapshots written so far.
\<close>

lemma isSnapshotFile_name: "isSnapshotFile (snapshotName i)"
  by (simp add: isSnapshotFile_def snapshotName_def)

lemma snapshotName_inj: "snapshotName i = snapshotName j \<Longrightarrow> i = j"
  by (simp add: snapshotName_def)

lemma cleanup_count:
  assumes l: "faithfulListing readdir" and d: "distinct dir"
  shows "length (filter isSnapshotFile (cleanupOldSnapshots readdir dir))
           = min 5 (length (filter isSnapshotFile dir))
       \<and> distinct (cleanupOldSnapshots readdir dir)
       \<and> set (cleanupOldSnapshots readdir dir) \<subseteq> set dir"
proof -
  let ?P = isSnapshotFile
  let ?snaps = "filter ?P (readdir dir)"
  let ?A = "set (filter ?P dir)"
  have rd: "distinct (readdir dir)" "set (readdir dir) = set dir"
    using l d by (auto simp: faithfulListing_def)
  have setsn: "set ?snaps = ?A" using rd(2) by auto
  have dsn: "distinct ?snaps" using rd(1) by simp
  have cA: "card ?A = length (filter ?P dir)"
    using d by (intro distinct_card) simp
  have "card (set ?snaps) = length ?snaps" using dsn by (rule distinct_card)
  then have n: "length ?snaps = length (filter ?P dir)" using setsn cA by simp
  show ?thesis
  proof (cases "length ?snaps > 5")
    case False
    then show ?thesis using d n by (simp add: cleanupOldSnapshots_def Let_def)
  next
    case True
    let ?D = "set (take (length ?snaps - 5) ?snaps)"
    let ?res = "filter (\<lambda>f. f \<notin> ?D) dir"
    have res: "cleanupOldSnapshots readdir dir = ?res"
      using True by (simp add: cleanupOldSnapshots_def Let_def)
    have sub: "?D \<subseteq> ?A" using setsn by (metis set_take_subset)
    have "card ?D = length (take (length ?snaps - 5) ?snaps)"
      using dsn by (intro distinct_card) simp
    then have cD: "card ?D = length ?snaps - 5" by simp
    have c1: "card (set (filter ?P ?res)) = length (filter ?P ?res)"
      using d by (intro distinct_card) simp
    have c2: "set (filter ?P ?res) = ?A - ?D" by auto
    have c3: "card (?A - ?D) = card ?A - card ?D"
      using sub by (intro card_Diff_subset) auto
    have "length (filter ?P ?res) = 5" using c1 c2 c3 cA cD n True by simp
    then show ?thesis using res d n True by auto
  qed
qed

lemma takeSnapshot_count:
  assumes l: "faithfulListing readdir" and s: "memState sm \<noteq> None"
    and d: "distinct (snapshotDir sm)" and f: "snapshotName i \<notin> set (snapshotDir sm)"
  shows "length (filter isSnapshotFile (snapshotDir (snd (takeSnapshot readdir i sm))))
           = min 5 (Suc (length (filter isSnapshotFile (snapshotDir sm))))
       \<and> distinct (snapshotDir (snd (takeSnapshot readdir i sm)))
       \<and> set (snapshotDir (snd (takeSnapshot readdir i sm))) \<subseteq> insert (snapshotName i) (set (snapshotDir sm))
       \<and> memState (snd (takeSnapshot readdir i sm)) \<noteq> None"
proof -
  let ?dir1 = "snapshotDir sm @ [snapshotName i]"
  have d1: "distinct ?dir1" using d f by simp
  have t: "snapshotDir (snd (takeSnapshot readdir i sm)) = cleanupOldSnapshots readdir ?dir1"
    "memState (snd (takeSnapshot readdir i sm)) = memState sm"
    using s f by (auto simp: takeSnapshot_def Let_def snapshotName_def)
  show ?thesis
    using cleanup_count [OF l d1] s by (auto simp: t isSnapshotFile_name)
qed

lemma retention_count:
  assumes "faithfulListing readdir" "memState sm \<noteq> None" "distinct (snapshotDir sm)"
    "distinct ids" "\<forall>i\<in>set ids. snapshotName i \<notin> set (snapshotDir sm)"
    "length (filter isSnapshotFile (snapshotDir sm)) \<le> 5"
  shows "length (filter isSnapshotFile (snapshotDir (snapshotCycles readdir ids sm)))
           = min 5 (length (filter isSnapshotFile (snapshotDir sm)) + length ids)"
  using assms(2-)
proof (induction ids arbitrary: sm)
  case Nil
  then show ?case by (simp add: snapshotCycles_def)
next
  case (Cons i ids)
  let ?s = "snd (takeSnapshot readdir i sm)"
  have f: "snapshotName i \<notin> set (snapshotDir sm)" using Cons.prems by simp
  note T = takeSnapshot_count [OF assms(1) Cons.prems(1,2) f]
  have fresh: "\<forall>j\<in>set ids. snapshotName j \<notin> set (snapshotDir ?s)"
  proof
    fix j assume j: "j \<in> set ids"
    then have "j \<noteq> i" using Cons.prems(3) by auto
    then have "snapshotName j \<noteq> snapshotName i" using snapshotName_inj by blast
    moreover have "snapshotName j \<notin> set (snapshotDir sm)" using Cons.prems(4) j by simp
    ultimately show "snapshotName j \<notin> set (snapshotDir ?s)" using T by blast
  qed
  have "distinct ids" using Cons.prems(3) by simp
  moreover have "length (filter isSnapshotFile (snapshotDir ?s)) \<le> 5" using T by simp
  ultimately have
    "length (filter isSnapshotFile (snapshotDir (snapshotCycles readdir ids ?s)))
      = min 5 (length (filter isSnapshotFile (snapshotDir ?s)) + length ids)"
    using Cons.IH [of ?s] T fresh by blast
  then show ?case using T by (simp add: snapshotCycles_def)
qed

text \<open>
  Claim C6 fails on the code. In the retention scenario the file system lists the
  directory by name. After the seven cycles five snapshot files remain, but they are the
  five that were created first: the sixth and the seventh snapshot were each deleted by
  the cleanup of the cycle that wrote them.
\<close>

theorem retention_drops_newest_snapshots:
  "snapshotDir (snapshotCycles listByName exampleIds exampleStateManager) =
     [''snapshot_f1.json'', ''snapshot_e2.json'', ''snapshot_d3.json'',
      ''snapshot_c4.json'', ''snapshot_b5.json'']"
  by code_simp

section \<open>Properties of the validation queue\<close>

lemma drainLoop_count:
  "drainLoop c a js rs = (a', js', rs') \<Longrightarrow>
   length (filter (\<lambda>j. jobMint j = m) js') + length (filter (\<lambda>r. jobMint (fst r) = m \<and> \<not> snd r) rs')
   = length (filter (\<lambda>j. jobMint j = m) js) + length (filter (\<lambda>r. jobMint (fst r) = m \<and> \<not> snd r) rs)"
  by (induction js arbitrary: a rs) (auto split: if_splits)

lemma drain_total: "totalFor m (drain s) = totalFor m s"
proof -
  obtain a' js' rs' where d: "drainLoop (concurrency s) (active s) (q s) (running s) = (a', js', rs')"
    by (cases "drainLoop (concurrency s) (active s) (q s) (running s)") auto
  show ?thesis
    using drainLoop_count [OF d, of m]
    by (simp add: totalFor_def outcomesFor_def pendingFor_def drain_def d)
qed

lemma filter_update_done:
  "i < length xs \<Longrightarrow> P (xs ! i) \<Longrightarrow> \<not> P y \<Longrightarrow>
   Suc (length (filter P (xs[i := y]))) = length (filter P xs)"
  by (induction xs arbitrary: i) (auto split: nat.splits)

lemma filter_update_same:
  "i < length xs \<Longrightarrow> \<not> P (xs ! i) \<Longrightarrow> \<not> P y \<Longrightarrow>
   length (filter P (xs[i := y])) = length (filter P xs)"
  by (induction xs arbitrary: i) (auto split: nat.splits)

lemma filter_remove_nth:
  "i < length xs \<Longrightarrow> \<not> P (xs ! i) \<Longrightarrow>
   length (filter P (take i xs @ drop (Suc i) xs)) = length (filter P xs)"
proof -
  assume a: "i < length xs" "\<not> P (xs ! i)"
  have "xs = take i xs @ xs ! i # drop (Suc i) xs"
    using a(1) by (rule id_take_nth_drop)
  then have "filter P xs = filter P (take i xs @ xs ! i # drop (Suc i) xs)" by simp
  then show ?thesis using a(2) by simp
qed

lemma processJob_total: "totalFor m (processJob sc mo i t f s) = totalFor m s"
proof (cases "i < length (running s) \<and> \<not> snd (running s ! i)")
  case False
  then have "processJob sc mo i t f s = s" by (auto simp: processJob_def)
  then show ?thesis by simp
next
  case True
  let ?j = "fst (running s ! i)"
  let ?P = "\<lambda>r. jobMint (fst r) = m \<and> \<not> snd r"
  show ?thesis
  proof (cases "jobMint ?j = m")
    case yes: True
    have "Suc (length (filter ?P ((running s)[i := (?j, True)]))) = length (filter ?P (running s))"
      using True yes by (intro filter_update_done) auto
    then show ?thesis
      using True yes
      by (auto simp: processJob_def totalFor_def outcomesFor_def pendingFor_def Let_def split: result.splits)
  next
    case no: False
    have "length (filter ?P ((running s)[i := (?j, True)])) = length (filter ?P (running s))"
      using True no by (intro filter_update_same) auto
    then show ?thesis
      using True no
      by (auto simp: processJob_def totalFor_def outcomesFor_def pendingFor_def Let_def split: result.splits)
  qed
qed

lemma settle_total: "totalFor m (settle i s) = totalFor m s"
proof (cases "i < length (running s) \<and> snd (running s ! i)")
  case False
  then have "settle i s = s" by (auto simp: settle_def)
  then show ?thesis by simp
next
  case True
  let ?P = "\<lambda>r. jobMint (fst r) = m \<and> \<not> snd r"
  have "length (filter ?P (take i (running s) @ drop (Suc i) (running s))) = length (filter ?P (running s))"
    using True by (intro filter_remove_nth) auto
  then show ?thesis
    using True by (simp add: settle_def drain_total) (simp add: totalFor_def outcomesFor_def pendingFor_def)
qed

lemma push_other_total: "m' \<noteq> m \<Longrightarrow> totalFor m (push m' md t s) = totalFor m s"
  by (auto simp: push_def Let_def drain_total split: prod.splits)
     (auto simp: totalFor_def outcomesFor_def pendingFor_def)

lemma step_total: "\<not> isPushFor m e \<Longrightarrow> totalFor m (step sc mo e s) = totalFor m s"
  by (cases e) (simp_all add: push_other_total processJob_total settle_total)

lemma run_total: "\<forall>e\<in>set evs. \<not> isPushFor m e \<Longrightarrow> totalFor m (run sc mo evs s) = totalFor m s"
  unfolding run_def by (induction evs arbitrary: s) (simp_all add: step_total)

lemma push_new_total: "totalFor m (push m md t (newQueue c)) = 1"
  by (simp add: push_def cacheHas_def newQueue_def Let_def drain_total)
     (simp add: totalFor_def outcomesFor_def pendingFor_def)

lemma drained_pending: "drained s \<Longrightarrow> pendingFor m s = 0"
  by (simp add: drained_def pendingFor_def)

lemma map_of_mapSet: "map_of (mapSet k v es) k = Some v"
  by (induction es) auto

lemma drainLoop_inv:
  "drainLoop c a js rs = (a', js', rs') \<Longrightarrow> a = int (length rs) \<Longrightarrow>
   a' = int (length rs') \<and> (js' \<noteq> [] \<longrightarrow> c \<le> a') \<and> length js' + length rs' = length js + length rs"
proof (induction js arbitrary: a rs)
  case Nil
  then show ?case by auto
next
  case (Cons j js)
  show ?case
  proof (cases "a < c")
    case True
    then have d: "drainLoop c (a + 1) js (rs @ [(j, False)]) = (a', js', rs')"
      using Cons.prems(1) by simp
    have "a + 1 = int (length (rs @ [(j, False)]))"
      using Cons.prems(2) by simp
    from Cons.IH [OF d this] show ?thesis by auto
  next
    case False
    then show ?thesis using Cons.prems by auto
  qed
qed

lemma drain_inv:
  assumes "active s = int (length (running s))"
  shows "qinv (drain s) \<and> loadSize (drain s) = loadSize s \<and> concurrency (drain s) = concurrency s"
proof -
  obtain a' js' rs' where d: "drainLoop (concurrency s) (active s) (q s) (running s) = (a', js', rs')"
    by (cases "drainLoop (concurrency s) (active s) (q s) (running s)") auto
  show ?thesis
    using drainLoop_inv [OF d assms]
    by (auto simp: qinv_def loadSize_def drain_def d)
qed

lemma processJob_shape:
  "running (processJob sc mo i t f s) = (if i < length (running s) \<and> \<not> snd (running s ! i)
       then (running s)[i := (fst (running s ! i), True)] else running s)
   \<and> q (processJob sc mo i t f s) = q s \<and> active (processJob sc mo i t f s) = active s
   \<and> concurrency (processJob sc mo i t f s) = concurrency s"
  by (auto simp: processJob_def Let_def split: result.splits)

lemma finishFirst_step:
  assumes "qinv s" "running s \<noteq> []"
  shows "qinv (finishFirst sc mo t f s)
       \<and> Suc (loadSize (finishFirst sc mo t f s)) = loadSize s
       \<and> concurrency (finishFirst sc mo t f s) = concurrency s"
proof -
  let ?c = "processJob sc mo 0 t f s"
  have len: "length (running ?c) = length (running s)" "q ?c = q s" "active ?c = active s"
    "concurrency ?c = concurrency s"
    using processJob_shape [of sc mo 0 t f s] by (auto split: if_splits)
  have fin: "snd (running ?c ! 0)"
    using processJob_shape [of sc mo 0 t f s] assms(2) by (auto split: if_splits)
  have ne: "0 < length (running ?c)" using assms(2) len by simp
  let ?r = "?c\<lparr> running := take 0 (running ?c) @ drop (Suc 0) (running ?c),
                  active := active ?c - 1,
                  qstats := (qstats ?c)\<lparr> processed := processed (qstats ?c) + 1 \<rparr> \<rparr>"
  have st: "settle 0 ?c = drain ?r"
    using fin ne by (simp add: settle_def)
  have a: "active ?r = int (length (running ?r))"
    using assms(1) len ne by (cases "running ?c") (auto simp: qinv_def)
  have sz: "Suc (loadSize ?r) = loadSize s"
    using len ne by (simp add: loadSize_def)
  show ?thesis
    using drain_inv [OF a] sz len by (simp add: st finishFirst_def)
qed

lemma can_drain:
  assumes "qinv s" "0 < concurrency s"
  shows "\<exists>n. drained ((finishFirst sc mo t f ^^ n) s)"
  using assms
proof (induction "loadSize s" arbitrary: s)
  case 0
  then have "drained s" by (simp add: loadSize_def drained_def)
  then have "drained ((finishFirst sc mo t f ^^ 0) s)" by simp
  then show ?case by blast
next
  case (Suc k)
  have ne: "running s \<noteq> []"
  proof
    assume e: "running s = []"
    with Suc.prems have "q s = []" by (auto simp: qinv_def)
    with e Suc.hyps(2) show False by (simp add: loadSize_def)
  qed
  let ?s = "finishFirst sc mo t f s"
  have f: "qinv ?s" "Suc (loadSize ?s) = loadSize s" "concurrency ?s = concurrency s"
    using finishFirst_step [OF Suc.prems(1) ne] by auto
  then have "k = loadSize ?s" using Suc.hyps(2) by simp
  from Suc.hyps(1) [OF this f(1)] f(3) Suc.prems(2)
  obtain n where "drained ((finishFirst sc mo t f ^^ n) ?s)" by auto
  then have "drained ((finishFirst sc mo t f ^^ Suc n) s)"
    by (simp only: funpow_Suc_right o_apply)
  then show ?case by blast
qed

lemma push_qinv: "qinv s \<Longrightarrow> qinv (push m md t s) \<and> concurrency (push m md t s) = concurrency s"
proof -
  assume i: "qinv s"
  obtain h cache where c: "cacheHas validatedTtlMs t m (validatedMints s) = (h, cache)"
    by (cases "cacheHas validatedTtlMs t m (validatedMints s)") auto
  show ?thesis
  proof (cases h)
    case True
    then show ?thesis using i by (auto simp: push_def c qinv_def)
  next
    case False
    let ?r = "s\<lparr> validatedMints := cache,
                 qstats := (qstats s)\<lparr> queued := queued (qstats s) + 1 \<rparr>,
                 q := q s @ [\<lparr> jobMint = m, jobMetadata = md, enqueueTime = t \<rparr>] \<rparr>"
    have "active ?r = int (length (running ?r))" using i by (simp add: qinv_def)
    from drain_inv [OF this] show ?thesis
      using False by (simp add: push_def c Let_def)
  qed
qed

lemma processJob_qinv: "qinv s \<Longrightarrow> qinv (processJob sc mo i t f s) \<and> concurrency (processJob sc mo i t f s) = concurrency s"
  using processJob_shape [of sc mo i t f s] by (auto simp: qinv_def split: if_splits)

lemma settle_qinv: "qinv s \<Longrightarrow> qinv (settle i s) \<and> concurrency (settle i s) = concurrency s"
proof (cases "i < length (running s) \<and> snd (running s ! i)")
  case False
  assume "qinv s"
  moreover from False have "settle i s = s" by (auto simp: settle_def)
  ultimately show ?thesis by simp
next
  case True
  assume i: "qinv s"
  let ?r = "s\<lparr> running := take i (running s) @ drop (Suc i) (running s),
                  active := active s - 1,
                  qstats := (qstats s)\<lparr> processed := processed (qstats s) + 1 \<rparr> \<rparr>"
  have "active ?r = int (length (running ?r))"
    using i True by (cases "running s") (auto simp: qinv_def)
  from drain_inv [OF this] show ?thesis
    using True by (simp add: settle_def)
qed

lemma run_qinv: "qinv s \<Longrightarrow> qinv (run sc mo evs s) \<and> concurrency (run sc mo evs s) = concurrency s"
  unfolding run_def
proof (induction evs arbitrary: s)
  case Nil
  then show ?case by simp
next
  case (Cons e evs)
  have "qinv (step sc mo e s) \<and> concurrency (step sc mo e s) = concurrency s"
    using Cons.prems by (cases e) (simp_all add: push_qinv processJob_qinv settle_qinv)
  with Cons.IH [of "step sc mo e s"] show ?case by simp
qed

lemma reachable_can_drain: "0 < c \<Longrightarrow> \<exists>n. drained ((finishFirst sc mo t f ^^ n) (run sc mo evs (newQueue c)))"
proof -
  assume c: "0 < c"
  have "qinv (newQueue c :: 'a vqueue)" by (simp add: qinv_def newQueue_def)
  from run_qinv [OF this, of sc mo evs] c
  have "qinv (run sc mo evs (newQueue c :: 'a vqueue))" "0 < concurrency (run sc mo evs (newQueue c :: 'a vqueue))"
    by (simp_all add: newQueue_def)
  then show ?thesis by (rule can_drain)
qed

text \<open>A mint that occurs nowhere in the queue stays so while it is not enqueued.\<close>

lemma mapSet_mem: "(a, b) \<in> set (mapSet k v es) \<Longrightarrow> a = k \<or> a \<in> fst ` set es"
  by (induction es) (force split: if_splits)+

lemma mapSet_keys: "fst ` set (mapSet k v es) \<subseteq> insert k (fst ` set es)"
  using mapSet_mem by fastforce

lemma mapDelete_keys: "fst ` set (mapDelete k es) \<subseteq> fst ` set es"
  by (auto simp: mapDelete_def)

lemma drainLoop_sets:
  "drainLoop c a js rs = (a', js', rs') \<Longrightarrow>
   jobMint ` set js' \<union> (\<lambda>r. jobMint (fst r)) ` set rs'
     = jobMint ` set js \<union> (\<lambda>r. jobMint (fst r)) ` set rs"
  by (induction js arbitrary: a rs) (auto split: if_splits)

lemma drain_absent:
  assumes "absentFor m s" shows "absentFor m (drain s)"
proof -
  obtain a' js' rs' where d: "drainLoop (concurrency s) (active s) (q s) (running s) = (a', js', rs')"
    by (cases "drainLoop (concurrency s) (active s) (q s) (running s)") auto
  show ?thesis
    using drainLoop_sets [OF d] assms
    by (auto simp: absentFor_def drain_def d)
qed

lemma cacheHas_keys:
  "fst ` set (snd (cacheHas ttl t k es)) \<subseteq> fst ` set es"
  using mapDelete_keys [of k es]
  by (auto simp: cacheHas_def split: option.splits)

lemma push_absent:
  assumes "absentFor m s" "m' \<noteq> m" shows "absentFor m (push m' md t s)"
proof -
  obtain h cache where c: "cacheHas validatedTtlMs t m' (validatedMints s) = (h, cache)"
    by (cases "cacheHas validatedTtlMs t m' (validatedMints s)") auto
  have k: "fst ` set cache \<subseteq> fst ` set (validatedMints s)"
    using cacheHas_keys [of validatedTtlMs t m' "validatedMints s"] c by simp
  show ?thesis
  proof (cases h)
    case True
    then show ?thesis using assms k by (auto simp: push_def c absentFor_def)
  next
    case False
    let ?r = "s\<lparr> validatedMints := cache,
                 qstats := (qstats s)\<lparr> queued := queued (qstats s) + 1 \<rparr>,
                 q := q s @ [\<lparr> jobMint = m', jobMetadata = md, enqueueTime = t \<rparr>] \<rparr>"
    have "absentFor m ?r" using assms k by (auto simp: absentFor_def)
    from drain_absent [OF this] show ?thesis
      using False by (simp add: push_def c Let_def)
  qed
qed

lemma processJob_absent:
  assumes "absentFor m s" shows "absentFor m (processJob sc mo i t f s)"
proof (cases "i < length (running s) \<and> \<not> snd (running s ! i)")
  case False
  then have "processJob sc mo i t f s = s" by (auto simp: processJob_def)
  then show ?thesis using assms by simp
next
  case True
  then have mem: "running s ! i \<in> set (running s)" by simp
  then have ne: "jobMint (fst (running s ! i)) \<noteq> m"
    using assms by (auto simp: absentFor_def)
  have sub: "set ((running s)[i := (fst (running s ! i), True)])
      \<subseteq> insert (fst (running s ! i), True) (set (running s))"
    by (rule set_update_subset_insert)
  have keys: "m \<notin> fst ` set (mapSet (jobMint (fst (running s ! i))) t (validatedMints s))"
    using mapSet_keys [of "jobMint (fst (running s ! i))" t "validatedMints s"] ne assms
    by (auto simp: absentFor_def)
  have run: "m \<notin> (\<lambda>r. jobMint (fst r)) ` set ((running s)[i := (fst (running s ! i), True)])"
    using sub ne assms by (auto simp: absentFor_def)
  show ?thesis
    using assms True ne keys run
    by (auto simp: processJob_def absentFor_def Let_def cacheAdd_def split: result.splits)
qed

lemma settle_absent:
  assumes "absentFor m s" shows "absentFor m (settle i s)"
proof (cases "i < length (running s) \<and> snd (running s ! i)")
  case False
  then have "settle i s = s" by (auto simp: settle_def)
  then show ?thesis using assms by simp
next
  case True
  let ?r = "s\<lparr> running := take i (running s) @ drop (Suc i) (running s),
                  active := active s - 1,
                  qstats := (qstats s)\<lparr> processed := processed (qstats s) + 1 \<rparr> \<rparr>"
  have "absentFor m ?r"
    using assms by (auto simp: absentFor_def dest: in_set_takeD in_set_dropD)
  from drain_absent [OF this] show ?thesis
    using True by (simp add: settle_def)
qed

lemma run_absent:
  "absentFor m s \<Longrightarrow> \<forall>e\<in>set evs. \<not> isPushFor m e \<Longrightarrow> absentFor m (run sc mo evs s)"
  unfolding run_def
proof (induction evs arbitrary: s)
  case Nil
  then show ?case by simp
next
  case (Cons e evs)
  have "absentFor m (step sc mo e s)"
    using Cons.prems by (cases e) (simp_all add: push_absent processJob_absent settle_absent)
  with Cons show ?case by simp
qed

lemma absent_new: "absentFor m (newQueue c)"
  by (simp add: absentFor_def newQueue_def)

lemma absent_facts:
  "absentFor m s \<Longrightarrow> totalFor m s = 0 \<and> \<not> fst (cacheHas validatedTtlMs t m (validatedMints s))"
proof -
  assume a: "absentFor m s"
  then have "map_of (validatedMints s) m = None"
    by (simp add: absentFor_def map_of_eq_None_iff)
  moreover have "filter (\<lambda>x. fst x = m) (outcomes s) = []"
    using a by (auto simp: absentFor_def filter_empty_conv)
  moreover have "filter (\<lambda>j. jobMint j = m) (q s) = []"
    using a by (auto simp: absentFor_def filter_empty_conv)
  moreover have "filter (\<lambda>r. jobMint (fst r) = m \<and> \<not> snd r) (running s) = []"
    using a by (auto simp: absentFor_def filter_empty_conv)
  ultimately show ?thesis
    by (simp add: totalFor_def outcomesFor_def pendingFor_def cacheHas_def)
qed

lemma push_accepted_total:
  "\<not> fst (cacheHas validatedTtlMs t m (validatedMints s)) \<Longrightarrow>
   totalFor m (push m md t s) = Suc (totalFor m s)"
  by (auto simp: push_def Let_def drain_total split: prod.splits)
     (auto simp: totalFor_def outcomesFor_def pendingFor_def)

lemma push_outcomes: "outcomes (push m md t s) = outcomes s"
proof -
  have d: "outcomes (drain x) = outcomes x" for x :: "'a vqueue"
    by (simp add: drain_def split: prod.splits)
  show ?thesis
    by (simp add: push_def Let_def d split: prod.splits)
qed

lemma push_accepted_pending:
  assumes "\<not> fst (cacheHas validatedTtlMs t m (validatedMints s))"
  shows "pendingFor m (push m md t s) = Suc (pendingFor m s)"
  using push_accepted_total [OF assms, of md] push_outcomes [of m md t s]
  by (simp add: totalFor_def outcomesFor_def)

text \<open>
  Claim C2, as the code has it. A mint that is enqueued once in a run from a new queue,
  whatever was enqueued before and after and however busy the workers are, has exactly
  one outcome whenever the queue is drained. In every state, an enqueue of a mint that
  the cache of validated mints does not hold is accepted: it adds a job for the mint,
  and once the queue is drained the mint has one outcome more than it had outcomes and
  jobs before, so a mint enqueued again while its job waits or runs is validated again.
  When the pipeline of a job returns, its mint is recorded in the cache, and an enqueue
  of a mint recorded there within the hour is dropped. With at least one worker, every
  state reached from a new queue is drained by letting the started jobs return one
  after the other.
\<close>

theorem enqueue_once_one_outcome:
  "(\<forall>evs1 evs2. (\<forall>e\<in>set evs1. \<not> isPushFor m e) \<and> (\<forall>e\<in>set evs2. \<not> isPushFor m e)
        \<and> drained (run sc mo evs2 (push m (md :: 'm) t (run sc mo evs1 (newQueue c)))) \<longrightarrow>
      outcomesFor m (run sc mo evs2 (push m md t (run sc mo evs1 (newQueue c)))) = 1)
   \<and> (\<forall>(s :: 'm vqueue). \<not> fst (cacheHas validatedTtlMs t m (validatedMints s)) \<longrightarrow>
        pendingFor m (push m md t s) = Suc (pendingFor m s))
   \<and> (\<forall>(s :: 'm vqueue) evs. (\<forall>e\<in>set evs. \<not> isPushFor m e)
        \<and> \<not> fst (cacheHas validatedTtlMs t m (validatedMints s))
        \<and> drained (run sc mo evs (push m md t s)) \<longrightarrow>
      outcomesFor m (run sc mo evs (push m md t s))
          = outcomesFor m s + pendingFor m s + 1)
   \<and> (\<forall>(s :: 'm vqueue) i t1 f. i < length (running s) \<and> \<not> snd (running s ! i)
        \<and> jobMint (fst (running s ! i)) = m \<longrightarrow>
        map_of (validatedMints (processJob sc mo i t1 f s)) m = Some t1)
   \<and> (\<forall>(s :: 'm vqueue) t0 t2 md'. map_of (validatedMints s) m = Some t0 \<and> t0 \<noteq> 0
        \<and> t2 - t0 \<le> validatedTtlMs \<longrightarrow>
        push m md' t2 s = s)
   \<and> (0 < c \<longrightarrow>
        (\<forall>evs t1 f. \<exists>n. drained ((finishFirst sc mo t1 f ^^ n)
                                  (run sc mo evs (newQueue c :: 'm vqueue)))))"
proof (intro conjI allI impI)
  fix evs1 evs2
  let ?s = "run sc mo evs1 (newQueue c :: 'm vqueue)"
  assume a: "(\<forall>e\<in>set evs1. \<not> isPushFor m e) \<and> (\<forall>e\<in>set evs2. \<not> isPushFor m e)
    \<and> drained (run sc mo evs2 (push m md t ?s))"
  then have "absentFor m ?s" by (simp add: run_absent absent_new)
  then have f: "totalFor m ?s = 0" "\<not> fst (cacheHas validatedTtlMs t m (validatedMints ?s))"
    using absent_facts by blast+
  have "totalFor m (run sc mo evs2 (push m md t ?s)) = 1"
    using a f by (simp add: run_total push_accepted_total)
  then show "outcomesFor m (run sc mo evs2 (push m md t ?s)) = 1"
    using a drained_pending [of "run sc mo evs2 (push m md t ?s)" m]
    by (simp add: totalFor_def)
next
  fix s :: "'m vqueue"
  assume "\<not> fst (cacheHas validatedTtlMs t m (validatedMints s))"
  then show "pendingFor m (push m md t s) = Suc (pendingFor m s)"
    by (rule push_accepted_pending)
next
  fix s :: "'m vqueue" and evs
  assume a: "(\<forall>e\<in>set evs. \<not> isPushFor m e)
    \<and> \<not> fst (cacheHas validatedTtlMs t m (validatedMints s))
    \<and> drained (run sc mo evs (push m md t s))"
  have "totalFor m (run sc mo evs (push m md t s)) = Suc (totalFor m s)"
    using a by (simp add: run_total push_accepted_total)
  then show "outcomesFor m (run sc mo evs (push m md t s)) = outcomesFor m s + pendingFor m s + 1"
    using a drained_pending [of "run sc mo evs (push m md t s)" m]
    by (simp add: totalFor_def)
next
  fix s :: "'m vqueue" and i t1 f
  assume "i < length (running s) \<and> \<not> snd (running s ! i) \<and> jobMint (fst (running s ! i)) = m"
  then show "map_of (validatedMints (processJob sc mo i t1 f s)) m = Some t1"
    by (auto simp: processJob_def Let_def cacheAdd_def map_of_mapSet split: result.splits)
next
  fix s :: "'m vqueue" and t0 t2 and md' :: 'm
  assume "map_of (validatedMints s) m = Some t0 \<and> t0 \<noteq> 0 \<and> t2 - t0 \<le> validatedTtlMs"
  then show "push m md' t2 s = s"
    by (simp add: push_def cacheHas_def)
next
  fix evs t1 f
  assume "0 < c"
  then show "\<exists>n. drained ((finishFirst sc mo t1 f ^^ n) (run sc mo evs (newQueue c :: 'm vqueue)))"
    by (rule reachable_can_drain)
qed

theorem enqueue_once_one_outcome_witness:
  "\<not> isPushFor ''M'' (Push ''N'' () 0 :: unit qevent)
   \<and> drained (run defaultScanner defaultMomentum exampleBusyEvents exampleQueued)
   \<and> outcomesFor ''M'' (run defaultScanner defaultMomentum exampleBusyEvents exampleQueued) = 1
   \<and> outcomesFor ''N'' (run defaultScanner defaultMomentum exampleBusyEvents exampleQueued) = 1
   \<and> pendingFor ''M'' exampleQueued = 1 \<and> outcomesFor ''M'' exampleQueued = 0
   \<and> \<not> fst (cacheHas validatedTtlMs 2 ''M'' (validatedMints exampleQueued))
   \<and> pendingFor ''M'' (push ''M'' () 2 exampleQueued) = 2
   \<and> drained (run defaultScanner defaultMomentum exampleAgainEvents
                (push ''M'' () 2 exampleQueued))
   \<and> outcomesFor ''M'' (run defaultScanner defaultMomentum exampleAgainEvents
                (push ''M'' () 2 exampleQueued)) = 2
   \<and> map_of (validatedMints (run defaultScanner defaultMomentum exampleBusyEvents
                exampleQueued)) ''M'' = Some 3
   \<and> push ''M'' () 5 (run defaultScanner defaultMomentum exampleBusyEvents exampleQueued)
       = run defaultScanner defaultMomentum exampleBusyEvents exampleQueued"
proof -
  let ?once = "run defaultScanner defaultMomentum exampleBusyEvents exampleQueued"
  let ?again = "run defaultScanner defaultMomentum exampleAgainEvents
                  (push ''M'' () 2 exampleQueued)"
  note T1 = enqueue_once_one_outcome [of "''M''" defaultScanner defaultMomentum "()" 1 1]
  note T2 = enqueue_once_one_outcome [of "''M''" defaultScanner defaultMomentum "()" 2 1]
  have np1: "\<forall>e\<in>set [Push ''N'' () 0 :: unit qevent]. \<not> isPushFor ''M'' e"
    by simp
  have np2: "\<forall>e\<in>set exampleBusyEvents. \<not> isPushFor ''M'' e"
    by (simp add: exampleBusyEvents_def)
  have np3: "\<forall>e\<in>set exampleAgainEvents. \<not> isPushFor ''M'' e"
    by (simp add: exampleAgainEvents_def)
  have d1: "drained ?once"
    by code_simp
  have d2: "drained ?again"
    by code_simp
  have n: "outcomesFor ''N'' ?once = 1"
    by code_simp
  have st: "pendingFor ''M'' exampleQueued = 1" "outcomesFor ''M'' exampleQueued = 0"
    "\<not> fst (cacheHas validatedTtlMs 2 ''M'' (validatedMints exampleQueued))"
    by code_simp+
  have c: "map_of (validatedMints ?once) ''M'' = Some 3"
    by code_simp
  have one: "outcomesFor ''M'' ?once = 1"
    using T1 [THEN conjunct1, rule_format, of "[Push ''N'' () 0]" exampleBusyEvents] np1 np2 d1
    unfolding exampleQueued_def exampleBusy_def by blast
  have acc: "pendingFor ''M'' (push ''M'' () 2 exampleQueued) = Suc (pendingFor ''M'' exampleQueued)"
    using T2 [THEN conjunct2, THEN conjunct1, rule_format, of exampleQueued] st(3) by blast
  have two: "outcomesFor ''M'' ?again
      = outcomesFor ''M'' exampleQueued + pendingFor ''M'' exampleQueued + 1"
    using T2 [THEN conjunct2, THEN conjunct2, THEN conjunct1, rule_format,
        of exampleAgainEvents exampleQueued] np3 st(3) d2 by blast
  have dup: "push ''M'' () 5 ?once = ?once"
    using T1 [THEN conjunct2, THEN conjunct2, THEN conjunct2, THEN conjunct2, THEN conjunct1,
        rule_format, of ?once 3 5 "()"] c
    by (simp add: validatedTtlMs_def)
  show ?thesis using d1 d2 n st c one acc two dup by simp
qed

text \<open>
  Claim C2 as stated fails. The same mint is enqueued twice before the first job has
  returned; both jobs run, the queue drains, and the mint has two outcomes.
\<close>

theorem concurrent_duplicate_two_outcomes_counterexample:
  "drained exampleRunTwice \<and> outcomesFor ''M'' exampleRunTwice = 2"
  by code_simp

end
